theory Spec2Isabelle
  imports Complex_Main "HOL-Library.Word" "HOL-Library.AList"
begin

section \<open>Signals and the signal queue\<close>

text \<open>
  The signals the module installs handlers for: \<^verbatim>\<open>_SignalManager.__init__\<close> registers
  \<^verbatim>\<open>_signal_catcher\<close> for SIGHUP, SIGTERM and SIGALRM, and \<^verbatim>\<open>ServiceManager.__init__\<close>
  registers \<^verbatim>\<open>_fast_exit\<close> for SIGINT.
\<close>

datatype signal = SIGHUP | SIGINT | SIGTERM | SIGALRM

text \<open>
  \<^verbatim>\<open>self._signals_received\<close> is a \<^verbatim>\<open>collections.deque\<close>, modelled as a list whose head
  is the left end.
  \<^verbatim>\<open>
  def _signal_catcher(self, sig, frame):
      if sig in [signal.SIGALRM, signal.SIGTERM]:
          self._signals_received.appendleft(sig)
      else:
          self._signals_received.append(sig)
  \<close>
\<close>

definition signal_catcher :: "signal list \<Rightarrow> signal \<Rightarrow> signal list" where
  "signal_catcher signals_received sig =
     (if sig \<in> set [SIGALRM, SIGTERM] then sig # signals_received
      else signals_received @ [sig])"

text \<open>
  What a call of the hook \<^verbatim>\<open>_on_signal_received\<close> does to the process: it returns with a
  new state, or the process ends inside it with an exit status (\<^verbatim>\<open>os._exit\<close>,
  \<^verbatim>\<open>sys.exit\<close>).
\<close>

datatype 's progress = Running 's | Exited int

text \<open>
  \<^verbatim>\<open>
  def _run_signal_handlers(self):
      while True:
          try:
              sig = self._signals_received.popleft()
          except IndexError:
              return
          self._on_signal_received(sig)
  \<close>
  The function returns the signals handed to the hook, in the order of the calls, the
  queue that is left, and how the process goes on.
\<close>

fun run_signal_handlers ::
  "(signal \<Rightarrow> 's \<Rightarrow> 's progress) \<Rightarrow> signal list \<Rightarrow> 's
     \<Rightarrow> signal list \<times> signal list \<times> 's progress" where
  "run_signal_handlers on_signal_received [] s = ([], [], Running s)"
| "run_signal_handlers on_signal_received (sig # q) s =
     (case on_signal_received sig s of
        Exited code \<Rightarrow> ([sig], q, Exited code)
      | Running s' \<Rightarrow>
          (case run_signal_handlers on_signal_received q s' of
             (dispatched, q', r) \<Rightarrow> (sig # dispatched, q', r)))"

section \<open>The self-pipe\<close>

text \<open>
  What Python's \<^verbatim>\<open>==\<close> compares in \<^verbatim>\<open>_empty_signal_pipe\<close>: the \<^verbatim>\<open>bytes\<close> object that
  \<^verbatim>\<open>os.read\<close> returns and the integer 4096. Objects of different types are never
  equal.
\<close>

datatype py_value = PyBytes "8 word list" | PyInt int

fun py_eq :: "py_value \<Rightarrow> py_value \<Rightarrow> bool" where
  "py_eq (PyBytes a) (PyBytes b) = (a = b)"
| "py_eq (PyInt a) (PyInt b) = (a = b)"
| "py_eq (PyBytes a) (PyInt b) = False"
| "py_eq (PyInt a) (PyBytes b) = False"

datatype errno = EAGAIN | EINTR | ECHILD | EMFILE | ECONNREFUSED

text \<open>
  The read end of the pipe is the list of the bytes written and not yet read. Both ends
  are set non-blocking in \<^verbatim>\<open>_SignalManager.__init__\<close>, and the process holds the write
  end itself, so \<^verbatim>\<open>os.read\<close> on an empty pipe raises \<^verbatim>\<open>OSError(EAGAIN)\<close>; otherwise it
  returns at most \<open>n\<close> bytes and takes them off the pipe.
\<close>

definition os_read :: "8 word list \<Rightarrow> nat \<Rightarrow> errno + (8 word list \<times> 8 word list)" where
  "os_read pipe n = (if pipe = [] then Inl EAGAIN else Inr (take n pipe, drop n pipe))"

text \<open>
  \<^verbatim>\<open>
  def _empty_signal_pipe(self):
      try:
          while os.read(self.signal_pipe_r, 4096) == 4096:
              pass
      except (IOError, OSError):
          pass
  \<close>
  The result is the content of the pipe when the method returns; the method has no
  path on which an error of the read leaves it.
\<close>

function empty_signal_pipe :: "8 word list \<Rightarrow> 8 word list" where
  "empty_signal_pipe pipe =
     (case os_read pipe 4096 of
        Inl e \<Rightarrow> pipe
      | Inr (data, pipe') \<Rightarrow>
          if py_eq (PyBytes data) (PyInt 4096) then empty_signal_pipe pipe' else pipe')"
  by pat_completeness auto
termination
  by (relation "measure length") (auto simp: os_read_def split: if_splits)

section \<open>Exceptions\<close>

text \<open>
  The value a \<^verbatim>\<open>SystemExit\<close> carries in \<^verbatim>\<open>exc.code\<close>: an integer, \<^verbatim>\<open>None\<close>
  (\<^verbatim>\<open>sys.exit()\<close> without an argument) or another object such as a message.
\<close>

datatype py_code = CodeInt int | CodeNone | CodeObject string

text \<open>
  The exceptions the module raises, lets through or catches. \<^verbatim>\<open>KeyError\<close> carries the
  key that was looked up and \<^verbatim>\<open>ValueError\<close> the service id that is formatted into
  \<^verbatim>\<open>"%s service id doesn't exists"\<close>. \<^verbatim>\<open>UserError\<close> stands for any other exception
  class that user code raises.
\<close>

datatype py_exception =
    SystemExit py_code
  | KeyboardInterrupt
  | RuntimeError string
  | ValueError nat
  | KeyError nat
  | IndexError
  | TypeError
  | OverflowError
  | OSError errno
  | UserError string

section \<open>The supervisor\<close>

subsection \<open>State\<close>

text \<open>
  \<^verbatim>\<open>
  class _ServiceConfig(object):
      def __init__(self, service_id, service, workers, args, kwargs):
          self.service = service
          self.workers = workers
          self.args = args
          self.kwargs = kwargs
          self.service_id = service_id
  \<close>
  The factory \<^verbatim>\<open>service\<close> is kept by its name; a service id (a \<^verbatim>\<open>uuid.uuid4()\<close>) is a
  natural number.
\<close>

record service_config =
  service :: string
  workers :: int
  args :: "string list option"
  kwargs :: "(string \<times> string) list option"
  service_id :: nat

datatype disposition = SIG_DFL | SIG_IGN | Handler_signal_catcher | Handler_fast_exit

text \<open>
  What is global to the master process, and the part of the operating system the
  supervisor acts on:
  \<^item> \<open>process_runner_already_created\<close> is the class attribute of \<^verbatim>\<open>ServiceManager\<close>;
  \<^item> \<open>handlers\<close>, \<open>wakeup_fd\<close>, \<open>nonblocking\<close>, \<open>proctitle\<close> are what \<^verbatim>\<open>signal.signal\<close>,
    \<^verbatim>\<open>signal.set_wakeup_fd\<close>, \<^verbatim>\<open>fcntl\<close> and \<^verbatim>\<open>setproctitle\<close> set;
  \<^item> \<open>next_fd\<close> and \<open>fd_limit\<close> decide \<^verbatim>\<open>os.pipe()\<close>, which fails with EMFILE when the
    table of descriptors is full;
  \<^item> \<open>group_leader\<close> decides \<^verbatim>\<open>os.setsid()\<close>, which fails for a process group leader;
  \<^item> \<open>clock\<close> is what \<^verbatim>\<open>time.time()\<close> reads, in seconds; \<^verbatim>\<open>time.sleep\<close> and the wait
    in \<^verbatim>\<open>select.select\<close> move it forward;
  \<^item> \<open>last_pid\<close> is the last process id handed out: \<^verbatim>\<open>os.fork()\<close> returns the next one
    in the parent, which is never 0, so that a pid names one child (an operating system
    may hand out the pid of a reaped child again);
  \<^item> \<open>forks\<close> logs every \<^verbatim>\<open>os.fork()\<close> with the time of the call and the child's pid, and
    \<open>sent\<close> every \<^verbatim>\<open>os.kill(pid, sig)\<close>, both in the order of the calls;
  \<^item> \<open>group_sent\<close> logs every \<^verbatim>\<open>os.killpg(0, sig)\<close>.
\<close>

record process =
  process_runner_already_created :: bool
  handlers :: "signal \<Rightarrow> disposition"
  wakeup_fd :: "nat option"
  nonblocking :: "nat list"
  next_fd :: nat
  fd_limit :: nat
  argv :: "string list"
  proctitle :: string
  group_leader :: bool
  session_leader :: bool
  clock :: real
  last_pid :: nat
  forks :: "(real \<times> nat) list"
  sent :: "(nat \<times> signal) list"
  group_sent :: "signal list"

text \<open>
  The attributes of a \<^verbatim>\<open>ServiceManager\<close> object. \<^verbatim>\<open>_services\<close> is an \<^verbatim>\<open>OrderedDict\<close> and
  \<^verbatim>\<open>_running_services\<close> a \<^verbatim>\<open>defaultdict(dict)\<close> from service id to a dictionary from pid
  to worker id; both are association lists in insertion order. In the master
  \<^verbatim>\<open>_current_process\<close> stays \<^verbatim>\<open>None\<close>.
\<close>

record service_manager =
  wakeup_interval :: real
  signal_pipe_r :: nat
  signal_pipe_w :: nat
  signals_received :: "signal list"
  services :: "(nat \<times> service_config) list"
  running_services :: "(nat \<times> (nat \<times> int) list) list"
  forktimes :: "real list"
  current_process :: "string option"
  readpipe :: nat
  writepipe :: nat

subsection \<open>Dictionaries\<close>

text \<open>
  \<^verbatim>\<open>d[k]\<close> on a dictionary raises \<^verbatim>\<open>KeyError(k)\<close> for a missing key; on a
  \<^verbatim>\<open>defaultdict(dict)\<close> it stores an empty dictionary under the missing key and returns
  it. \<^verbatim>\<open>d[k] = v\<close> keeps the place of a key that is present and appends a new one.
\<close>

definition dict_getitem :: "(nat \<times> 'v) list \<Rightarrow> nat \<Rightarrow> py_exception + 'v" where
  "dict_getitem d k = (case map_of d k of None \<Rightarrow> Inl (KeyError k) | Some v \<Rightarrow> Inr v)"

definition dict_setitem :: "(nat \<times> 'v) list \<Rightarrow> nat \<Rightarrow> 'v \<Rightarrow> (nat \<times> 'v) list" where
  "dict_setitem d k v = AList.update k v d"

definition dict_delitem :: "(nat \<times> 'v) list \<Rightarrow> nat \<Rightarrow> (nat \<times> 'v) list" where
  "dict_delitem d k = AList.delete k d"

definition defaultdict_getitem ::
  "(nat \<times> (nat \<times> int) list) list \<Rightarrow> nat
     \<Rightarrow> (nat \<times> int) list \<times> (nat \<times> (nat \<times> int) list) list" where
  "defaultdict_getitem d k =
     (case map_of d k of None \<Rightarrow> ([], d @ [(k, [])]) | Some v \<Rightarrow> (v, d))"

text \<open>\<^verbatim>\<open>range(a, b)\<close> on integers: empty when \<open>b \<le> a\<close>.\<close>

definition py_range :: "int \<Rightarrow> int \<Rightarrow> int list" where
  "py_range a b = [a..b - 1]"

subsection \<open>Construction\<close>

text \<open>
  \<^verbatim>\<open>os.pipe()\<close> takes the next two descriptors, or fails with EMFILE when the table has
  no room for them. \<^verbatim>\<open>os.setsid()\<close> fails with \<^verbatim>\<open>OSError\<close> in a process group leader and
  makes any other process the leader of a new session and group.
\<close>

definition os_pipe :: "process \<Rightarrow> errno + ((nat \<times> nat) \<times> process)" where
  "os_pipe p =
     (if next_fd p + 2 > fd_limit p then Inl EMFILE
      else Inr ((next_fd p, next_fd p + 1), p\<lparr>next_fd := next_fd p + 2\<rparr>))"

definition set_nonblock :: "process \<Rightarrow> nat \<Rightarrow> process" where
  "set_nonblock p fd = p\<lparr>nonblocking := fd # nonblocking p\<rparr>"

definition signal_signal :: "process \<Rightarrow> signal \<Rightarrow> disposition \<Rightarrow> process" where
  "signal_signal p sig h = p\<lparr>handlers := (handlers p)(sig := h)\<rparr>"

text \<open>
  \<^verbatim>\<open>
  def get_process_name():
      return os.path.basename(sys.argv[0])
  \<close>
\<close>

definition basename :: "string \<Rightarrow> string" where
  "basename path = rev (takeWhile (\<lambda>c. c \<noteq> CHR ''/'') (rev path))"

definition get_process_name :: "process \<Rightarrow> py_exception + string" where
  "get_process_name p = (case argv p of [] \<Rightarrow> Inl IndexError | a # as \<Rightarrow> Inr (basename a))"

fun join_spaces :: "string list \<Rightarrow> string" where
  "join_spaces [] = []"
| "join_spaces [x] = x"
| "join_spaces (x # y # ys) = x @ '' '' @ join_spaces (y # ys)"

text \<open>
  \<^verbatim>\<open>
  _process_runner_already_created = False

  def __init__(self, wait_interval=0.01):
      if self._process_runner_already_created:
          raise RuntimeError("Only one instance of ProcessRunner per "
                             "application is allowed")
      ServiceManager._process_runner_already_created = True
      super(ServiceManager, self).__init__(wait_interval)

      # We use OrderedDict to start services in adding order
      self._services = collections.OrderedDict()
      self._running_services = collections.defaultdict(dict)
      self._forktimes = []
      self._current_process = None

      setproctitle.setproctitle("%s: master process [%s]" %
                                (get_process_name(), " ".join(sys.argv)))

      # Try to create a session id if possible
      try:
          os.setsid()
      except OSError:
          pass

      self.readpipe, self.writepipe = os.pipe()

      signal.signal(signal.SIGINT, self._fast_exit)
  \<close>
  with the constructor of the base class
  \<^verbatim>\<open>
  def __init__(self, wakeup_interval=None):
      self._wakeup_interval = wakeup_interval
      self.signal_pipe_r, self.signal_pipe_w = os.pipe()
      self._set_nonblock(self.signal_pipe_r)
      self._set_nonblock(self.signal_pipe_w)
      signal.set_wakeup_fd(self.signal_pipe_w)

      self._signals_received = collections.deque()

      signal.signal(signal.SIGHUP, self._signal_catcher)
      signal.signal(signal.SIGTERM, self._signal_catcher)
      signal.signal(signal.SIGALRM, self._signal_catcher)
  \<close>
  The result is the process as the call leaves it, with the exception that leaves the
  constructor or the object constructed.
\<close>

definition ServiceManager_init ::
  "process \<Rightarrow> real \<Rightarrow> process \<times> (py_exception + service_manager)" where
  "ServiceManager_init p wait_interval =
     (if process_runner_already_created p then
        (p, Inl (RuntimeError ''Only one instance of ProcessRunner per application is allowed''))
      else
        (let p1 = p\<lparr>process_runner_already_created := True\<rparr>
         in case os_pipe p1 of
              Inl e \<Rightarrow> (p1, Inl (OSError e))
            | Inr ((r, w), p2) \<Rightarrow>
                (let p3 = set_nonblock (set_nonblock p2 r) w;
                     p4 = p3\<lparr>wakeup_fd := Some w\<rparr>;
                     p5 = signal_signal p4 SIGHUP Handler_signal_catcher;
                     p6 = signal_signal p5 SIGTERM Handler_signal_catcher;
                     p7 = signal_signal p6 SIGALRM Handler_signal_catcher
                 in case get_process_name p7 of
                      Inl e \<Rightarrow> (p7, Inl e)
                    | Inr pname \<Rightarrow>
                        (let p8 = p7\<lparr>proctitle :=
                                      pname @ '': master process ['' @ join_spaces (argv p7) @ '']''\<rparr>;
                             p9 = (if group_leader p8 then p8
                                   else p8\<lparr>group_leader := True, session_leader := True\<rparr>)
                         in case os_pipe p9 of
                              Inl e \<Rightarrow> (p9, Inl (OSError e))
                            | Inr ((rp, wp), p10) \<Rightarrow>
                                (signal_signal p10 SIGINT Handler_fast_exit,
                                 Inr \<lparr>wakeup_interval = wait_interval,
                                      signal_pipe_r = r,
                                      signal_pipe_w = w,
                                      signals_received = [],
                                      services = [],
                                      running_services = [],
                                      forktimes = [],
                                      current_process = None,
                                      readpipe = rp,
                                      writepipe = wp\<rparr>)))))"

subsection \<open>Registration\<close>

text \<open>
  \<^verbatim>\<open>
  def add(self, service, workers=1, args=None, kwargs=None):
      service_id = uuid.uuid4()
      self._services[service_id] = _ServiceConfig(service_id, service, workers,
                                                  args, kwargs)
      return service_id
  \<close>
  The fresh identifier \<open>uuid4\<close> is given by the caller of the model.
\<close>

definition add ::
  "service_manager \<Rightarrow> nat \<Rightarrow> string \<Rightarrow> int \<Rightarrow> string list option
     \<Rightarrow> (string \<times> string) list option \<Rightarrow> nat \<times> service_manager" where
  "add m uuid4 srv w a kw =
     (uuid4, m\<lparr>services := dict_setitem (services m) uuid4
        \<lparr>service = srv, workers = w, args = a, kwargs = kw, service_id = uuid4\<rparr>\<rparr>)"

text \<open>
  \<^verbatim>\<open>
  def reconfigure(self, service_id, workers):
      try:
          sc = self._services[service_id]
      except IndexError:
          raise ValueError("%s service id doesn't exists" % service_id)
      else:
          sc.workers = workers
          # Reset forktimes to respawn services quickly
          self._forktimes = []
  \<close>
  The handler is chosen by the class of the exception, as \<^verbatim>\<open>except IndexError\<close> does; an
  exception of another class leaves the method as it is. The result is the exception
  that leaves the method, if any, and the state the method leaves behind.
\<close>

definition reconfigure ::
  "service_manager \<Rightarrow> nat \<Rightarrow> int \<Rightarrow> py_exception option \<times> service_manager" where
  "reconfigure m sid w =
     (case dict_getitem (services m) sid of
        Inl IndexError \<Rightarrow> (Some (ValueError sid), m)
      | Inl e \<Rightarrow> (Some e, m)
      | Inr sc \<Rightarrow>
          (None, m\<lparr>services := dict_setitem (services m) sid (sc\<lparr>workers := w\<rparr>),
                   forktimes := []\<rparr>))"

subsection \<open>The fork governor and the fork\<close>

definition expected_children :: "service_manager \<Rightarrow> int" where
  "expected_children m = sum_list (map (\<lambda>(k, s). workers s) (services m))"

text \<open>
  \<^verbatim>\<open>
  def _slowdown_respawn_if_needed(self):
      expected_children = sum(s.workers for s in self._services.values())
      if len(self._forktimes) > expected_children:
          if time.time() - self._forktimes[0] < expected_children:
              LOG.info('Forking too fast, sleeping')
              time.sleep(1)
              self._forktimes.pop(0)
              self._forktimes.append(time.time())
  \<close>
  \<^verbatim>\<open>self._forktimes[0]\<close> raises \<^verbatim>\<open>IndexError\<close> on an empty list. \<^verbatim>\<open>time.sleep(1)\<close> moves
  the clock forward by one second.
\<close>

definition slowdown_respawn_if_needed ::
  "process \<Rightarrow> service_manager \<Rightarrow> py_exception + (process \<times> service_manager)" where
  "slowdown_respawn_if_needed p m =
     (if int (length (forktimes m)) > expected_children m then
        (case forktimes m of
           [] \<Rightarrow> Inl IndexError
         | oldest # rest \<Rightarrow>
             if clock p - oldest < real_of_int (expected_children m) then
               (let p' = p\<lparr>clock := clock p + 1\<rparr>
                in Inr (p', m\<lparr>forktimes := rest @ [clock p']\<rparr>))
             else Inr (p, m))
      else Inr (p, m))"

definition os_fork :: "process \<Rightarrow> nat \<times> process" where
  "os_fork p =
     (Suc (last_pid p),
      p\<lparr>last_pid := Suc (last_pid p), forks := forks p @ [(clock p, Suc (last_pid p))]\<rparr>)"

definition os_kill :: "process \<Rightarrow> nat \<Rightarrow> signal \<Rightarrow> process" where
  "os_kill p cpid sig = p\<lparr>sent := sent p @ [(cpid, sig)]\<rparr>"

definition os_killpg :: "process \<Rightarrow> signal \<Rightarrow> process" where
  "os_killpg p sig = p\<lparr>group_sent := group_sent p @ [sig]\<rparr>"

text \<open>
  \<^verbatim>\<open>
  def _start_worker(self, service_id, worker_id):
      self._slowdown_respawn_if_needed()

      pid = os.fork()
      if pid != 0:
          self._running_services[service_id][pid] = worker_id
          return
      ...
  \<close>
  This is the method in the master, where \<^verbatim>\<open>os.fork()\<close> returns the child's pid. What
  follows the \<^verbatim>\<open>return\<close> runs in the child only (\<open>child_main\<close> below).
\<close>

definition start_worker ::
  "process \<Rightarrow> service_manager \<Rightarrow> nat \<Rightarrow> int
     \<Rightarrow> py_exception + (process \<times> service_manager)" where
  "start_worker p m sid wid =
     (case slowdown_respawn_if_needed p m of
        Inl e \<Rightarrow> Inl e
      | Inr (p1, m1) \<Rightarrow>
          (case os_fork p1 of
             (cpid, p2) \<Rightarrow>
               (case defaultdict_getitem (running_services m1) sid of
                  (inner, d) \<Rightarrow>
                    Inr (p2, m1\<lparr>running_services :=
                                  dict_setitem d sid (dict_setitem inner cpid wid)\<rparr>))))"

text \<open>
  \<^verbatim>\<open>
  def _stop_worker(self, service_id, worker_id):
      for pid, _id in self._running_services[service_id].items():
          if _id == worker_id:
              os.kill(pid, signal.SIGTERM)
  \<close>
\<close>

fun stop_worker_items :: "(nat \<times> int) list \<Rightarrow> int \<Rightarrow> process \<Rightarrow> process" where
  "stop_worker_items [] wid p = p"
| "stop_worker_items ((cpid, i) # items) wid p =
     stop_worker_items items wid (if i = wid then os_kill p cpid SIGTERM else p)"

definition stop_worker ::
  "process \<Rightarrow> service_manager \<Rightarrow> nat \<Rightarrow> int \<Rightarrow> process \<times> service_manager" where
  "stop_worker p m sid wid =
     (case defaultdict_getitem (running_services m) sid of
        (inner, d) \<Rightarrow> (stop_worker_items inner wid p, m\<lparr>running_services := d\<rparr>))"

subsection \<open>The supervisor tick\<close>

text \<open>
  \<^verbatim>\<open>
  def _adjust_workers(self):
      for service_id, conf in self._services.items():
          running_workers = len(self._running_services[service_id])
          if running_workers < conf.workers:
              for worker_id in range(running_workers, conf.workers):
                  self._start_worker(service_id, worker_id)
          elif running_workers > conf.workers:
              for worker_id in range(running_workers, conf.workers):
                  self._stop_worker(service_id, worker_id)
  \<close>
  The two inner loops are \<open>start_workers\<close> and \<open>stop_workers\<close>; the outer loop runs over
  the registry, which its body does not change.
\<close>

fun start_workers ::
  "process \<Rightarrow> service_manager \<Rightarrow> nat \<Rightarrow> int list
     \<Rightarrow> py_exception + (process \<times> service_manager)" where
  "start_workers p m sid [] = Inr (p, m)"
| "start_workers p m sid (wid # wids) =
     (case start_worker p m sid wid of
        Inl e \<Rightarrow> Inl e
      | Inr (p', m') \<Rightarrow> start_workers p' m' sid wids)"

fun stop_workers ::
  "process \<Rightarrow> service_manager \<Rightarrow> nat \<Rightarrow> int list \<Rightarrow> process \<times> service_manager" where
  "stop_workers p m sid [] = (p, m)"
| "stop_workers p m sid (wid # wids) =
     (case stop_worker p m sid wid of (p', m') \<Rightarrow> stop_workers p' m' sid wids)"

fun adjust_workers_items ::
  "(nat \<times> service_config) list \<Rightarrow> process \<Rightarrow> service_manager
     \<Rightarrow> py_exception + (process \<times> service_manager)" where
  "adjust_workers_items [] p m = Inr (p, m)"
| "adjust_workers_items ((sid, conf) # items) p m =
     (case defaultdict_getitem (running_services m) sid of
        (inner, d) \<Rightarrow>
          (let m0 = m\<lparr>running_services := d\<rparr>;
               running_workers = int (length inner)
           in if running_workers < workers conf then
                (case start_workers p m0 sid (py_range running_workers (workers conf)) of
                   Inl e \<Rightarrow> Inl e
                 | Inr (p', m') \<Rightarrow> adjust_workers_items items p' m')
              else if running_workers > workers conf then
                (case stop_workers p m0 sid (py_range running_workers (workers conf)) of
                   (p', m') \<Rightarrow> adjust_workers_items items p' m')
              else adjust_workers_items items p m0))"

definition adjust_workers ::
  "process \<Rightarrow> service_manager \<Rightarrow> py_exception + (process \<times> service_manager)" where
  "adjust_workers p m = adjust_workers_items (services m) p m"

text \<open>
  \<^verbatim>\<open>
  def _restart_dead_worker(self, dead_pid):
      for service_id in self._running_services:
          service_info = list(self._running_services[service_id].items())
          for pid, worker_id in service_info:
              if pid == dead_pid:
                  del self._running_services[service_id][pid]
                  self._start_worker(service_id, worker_id)
                  return
      LOG.error('pid %d not in service known pids list', dead_pid)
  \<close>
  \<open>find_pid\<close> is the search of the two loops: the first service, in the order of the
  table, that holds the pid, with the worker id stored under it.
\<close>

fun find_pid :: "(nat \<times> (nat \<times> int) list) list \<Rightarrow> nat \<Rightarrow> (nat \<times> int) option" where
  "find_pid [] dead_pid = None"
| "find_pid ((sid, inner) # table) dead_pid =
     (case map_of inner dead_pid of
        Some wid \<Rightarrow> Some (sid, wid)
      | None \<Rightarrow> find_pid table dead_pid)"

definition restart_dead_worker ::
  "process \<Rightarrow> service_manager \<Rightarrow> nat \<Rightarrow> py_exception + (process \<times> service_manager)" where
  "restart_dead_worker p m dead_pid =
     (case find_pid (running_services m) dead_pid of
        None \<Rightarrow> Inr (p, m)
      | Some (sid, wid) \<Rightarrow>
          (case defaultdict_getitem (running_services m) sid of
             (inner, d) \<Rightarrow>
               start_worker p
                 (m\<lparr>running_services := dict_setitem d sid (dict_delitem inner dead_pid)\<rparr>)
                 sid wid))"

text \<open>
  \<^verbatim>\<open>
  def _on_wakeup(self):
      dead_pid = self._get_last_pid_died()
      while dead_pid is not None:
          self._restart_dead_worker(dead_pid)
          dead_pid = self._get_last_pid_died()
      self._adjust_workers()
  \<close>
  \<^verbatim>\<open>_get_last_pid_died\<close> is \<^verbatim>\<open>os.waitpid(0, os.WNOHANG)\<close>: it returns the pid of a child
  that has exited and has now been waited on, or \<^verbatim>\<open>None\<close> when there is none. \<open>reaped\<close>
  is the list of the pids it returns in this wake-up, in order, before it returns
  \<^verbatim>\<open>None\<close>.
\<close>

fun restart_dead_workers ::
  "process \<Rightarrow> service_manager \<Rightarrow> nat list \<Rightarrow> py_exception + (process \<times> service_manager)" where
  "restart_dead_workers p m [] = Inr (p, m)"
| "restart_dead_workers p m (dead_pid # reaped) =
     (case restart_dead_worker p m dead_pid of
        Inl e \<Rightarrow> Inl e
      | Inr (p', m') \<Rightarrow> restart_dead_workers p' m' reaped)"

definition on_wakeup ::
  "process \<Rightarrow> service_manager \<Rightarrow> nat list \<Rightarrow> py_exception + (process \<times> service_manager)" where
  "on_wakeup p m reaped =
     (case restart_dead_workers p m reaped of
        Inl e \<Rightarrow> Inl e
      | Inr (p', m') \<Rightarrow> adjust_workers p' m')"

text \<open>
  The wait that ends an iteration of \<^verbatim>\<open>_wait_forever\<close>:
  \<^verbatim>\<open>select.select([self.signal_pipe_r], [], [], self._wakeup_interval)\<close> returns after
  \<open>dt\<close> seconds, at most the wake-up interval.
\<close>

definition select_wait :: "process \<Rightarrow> real \<Rightarrow> process" where
  "select_wait p dt = p\<lparr>clock := clock p + dt\<rparr>"

text \<open>
  \<^verbatim>\<open>
  def _wait_forever(self):
      while True:
          self._empty_signal_pipe()
          self._run_signal_handlers()
          self._on_wakeup()
          try:
              select.select([self.signal_pipe_r], [], [], self._wakeup_interval)
          except select.error as e:
              if e.args[0] != errno.EINTR:
                  raise
  \<close>
  The iterations of the master's loop in which no signal is pending, so that the drain
  and the dispatcher have nothing to do: each is given the pids reaped in it and the
  length of its wait. The loop itself never returns; the function follows it for the
  wake-ups listed.
\<close>

fun wait_forever_idle ::
  "process \<Rightarrow> service_manager \<Rightarrow> (nat list \<times> real) list
     \<Rightarrow> py_exception + (process \<times> service_manager)" where
  "wait_forever_idle p m [] = Inr (p, m)"
| "wait_forever_idle p m ((reaped, dt) # wakeups) =
     (case on_wakeup p m reaped of
        Inl e \<Rightarrow> Inl e
      | Inr (p', m') \<Rightarrow> wait_forever_idle (select_wait p' dt) m' wakeups)"

text \<open>
  \<^verbatim>\<open>
  def _reload(self):
      # Reset forktimes to respawn services quickly
      self._forktimes = []
      signal.signal(signal.SIGHUP, signal.SIG_IGN)
      os.killpg(0, signal.SIGHUP)
      signal.signal(signal.SIGHUP, self._signal_catcher)
  \<close>
\<close>

definition manager_reload :: "process \<Rightarrow> service_manager \<Rightarrow> process \<times> service_manager" where
  "manager_reload p m =
     (let p1 = p\<lparr>handlers := (handlers p)(SIGHUP := SIG_IGN)\<rparr>;
          p2 = os_killpg p1 SIGHUP
      in (p2\<lparr>handlers := (handlers p2)(SIGHUP := Handler_signal_catcher)\<rparr>,
          m\<lparr>forktimes := []\<rparr>))"

subsection \<open>The children the table tracks\<close>

text \<open>
  The keys of \<^verbatim>\<open>_running_services\<close>, read off the table in its order: \<open>tracked\<close> lists
  every pid with the service it is stored under, \<open>running_pids\<close> the pids alone.
\<close>

definition table_pids :: "(nat \<times> (nat \<times> int) list) list \<Rightarrow> (nat \<times> nat) list" where
  "table_pids table = concat (map (\<lambda>(sid, inner). map (\<lambda>(cpid, wid). (sid, cpid)) inner) table)"

definition tracked :: "service_manager \<Rightarrow> (nat \<times> nat) list" where
  "tracked m = table_pids (running_services m)"

definition table_pid_list :: "(nat \<times> (nat \<times> int) list) list \<Rightarrow> nat list" where
  "table_pid_list table = concat (map (\<lambda>(sid, inner). map fst inner) table)"

definition running_pids :: "service_manager \<Rightarrow> nat list" where
  "running_pids m = table_pid_list (running_services m)"

text \<open>
  The table reflects the children that were forked and are not yet reaped: its pids are
  the pids of the fork log without those in \<open>reaped\<close>, the pids \<^verbatim>\<open>os.waitpid\<close> has
  returned so far. With it go the facts that make the table a dictionary of
  dictionaries over process ids: no service id and no pid occurs twice, and every pid
  forked or reaped has been handed out, so that the next fork returns a new one.
\<close>

definition reflects :: "process \<Rightarrow> service_manager \<Rightarrow> nat list \<Rightarrow> bool" where
  "reflects p m reaped =
     (set (running_pids m) = set (map snd (forks p)) - set reaped \<and>
      distinct (running_pids m) \<and>
      distinct (map fst (running_services m)) \<and>
      list_all (\<lambda>c. c \<le> last_pid p) (map snd (forks p)) \<and>
      list_all (\<lambda>c. c \<le> last_pid p) reaped)"

text \<open>
  \<^verbatim>\<open>os.waitpid(0, os.WNOHANG)\<close> returns the pid of a child of this process, so one that
  \<^verbatim>\<open>os.fork\<close> has handed out by then. \<open>handed_out\<close> says so of the pids reaped in a wake-up,
  each at the moment \<^verbatim>\<open>_on_wakeup\<close> gets it: the replacement forked for an earlier pid of
  the list may be reaped later in the same list.
\<close>

fun handed_out :: "process \<Rightarrow> service_manager \<Rightarrow> nat list \<Rightarrow> bool" where
  "handed_out p m [] = True"
| "handed_out p m (dead_pid # reaped) =
     (dead_pid \<le> last_pid p \<and>
      (case restart_dead_worker p m dead_pid of
         Inl e \<Rightarrow> True
       | Inr (p', m') \<Rightarrow> handed_out p' m' reaped))"

subsection \<open>The signals of the master\<close>

text \<open>
  \<^verbatim>\<open>
  def _fast_exit(self, signo=None, frame=None,
                 reason='Caught SIGINT signal, instantaneous exiting'):
      signal.signal(signal.SIGINT, signal.SIG_IGN)
      signal.signal(signal.SIGALRM, signal.SIG_IGN)
      LOG.info(reason)
      os.killpg(0, signal.SIGINT)
      os._exit(1)
  \<close>
  The result is the process as \<^verbatim>\<open>os._exit(1)\<close> finds it.
\<close>

definition fast_exit :: "process \<Rightarrow> process" where
  "fast_exit p =
     os_killpg (signal_signal (signal_signal p SIGINT SIG_IGN) SIGALRM SIG_IGN) SIGINT"

text \<open>
  \<^verbatim>\<open>
  def _shutdown(self):
      LOG.info('Caught SIGTERM signal, graceful exiting of master process')
      LOG.debug("Killing services with signal SIGTERM")
      signal.signal(signal.SIGTERM, signal.SIG_IGN)
      os.killpg(0, signal.SIGTERM)

      LOG.debug("Waiting services to terminate")
      for pids in self._running_services.values():
          for pid in pids:
              try:
                  os.waitpid(pid, 0)
              except OSError as e:
                  if e.errno == errno.ECHILD:
                      pass
                  else:
                      raise

      LOG.debug("Shutdown finish")
      sys.exit(0)
  \<close>
  \<open>waitpid_error\<close> tells how \<^verbatim>\<open>os.waitpid(pid, 0)\<close> goes for each pid: it returns when the
  child has exited, which is then waited on, or it raises \<^verbatim>\<open>OSError\<close> with the given
  error. \<open>shutdown_wait\<close> is the double loop over the pids of the table, in its order; it
  returns the pids waited on and the exception that ends it, if any. The method assigns
  nothing to the supervisor. It ends with \<^verbatim>\<open>SystemExit(0)\<close>, status 0, or with the
  exception of the loop.
\<close>

fun shutdown_wait ::
  "(nat \<Rightarrow> errno option) \<Rightarrow> nat list \<Rightarrow> nat list \<Rightarrow> nat list \<times> py_exception option" where
  "shutdown_wait waitpid_error [] waited = (waited, None)"
| "shutdown_wait waitpid_error (cpid # pids) waited =
     (case waitpid_error cpid of
        None \<Rightarrow> shutdown_wait waitpid_error pids (waited @ [cpid])
      | Some e \<Rightarrow>
          if e = ECHILD then shutdown_wait waitpid_error pids waited
          else (waited, Some (OSError e)))"

definition manager_shutdown ::
  "(nat \<Rightarrow> errno option) \<Rightarrow> process \<Rightarrow> service_manager
     \<Rightarrow> process \<times> service_manager \<times> nat list \<times> (py_exception + int)" where
  "manager_shutdown waitpid_error p m =
     (let p1 = signal_signal p SIGTERM SIG_IGN;
          p2 = os_killpg p1 SIGTERM
      in case shutdown_wait waitpid_error (running_pids m) [] of
           (waited, None) \<Rightarrow> (p2, m, waited, Inr 0)
         | (waited, Some e) \<Rightarrow> (p2, m, waited, Inl e))"

text \<open>
  What the hook of the master does with a signal: it returns and the loop goes on, or
  the method does not return; then the process and the supervisor are given as they
  are at that moment, with the pids waited on and the exit status or the exception that
  leaves the method.
  \<^verbatim>\<open>
  def _on_signal_received(self, sig):
      if sig == signal.SIGALRM:
          self._fast_exit(reason='Graceful shutdown timeout exceeded, '
                          'instantaneous exiting of master process')
      elif sig == signal.SIGTERM:
          self._shutdown()
      elif sig == signal.SIGHUP:
          self._reload()
  \<close>
\<close>

datatype master_step =
    Continues process service_manager
  | Terminated process service_manager "nat list" "py_exception + int"

definition manager_on_signal_received ::
  "(nat \<Rightarrow> errno option) \<Rightarrow> signal \<Rightarrow> process \<Rightarrow> service_manager \<Rightarrow> master_step" where
  "manager_on_signal_received waitpid_error sig p m =
     (if sig = SIGALRM then Terminated (fast_exit p) m [] (Inr 1)
      else if sig = SIGTERM then
        (case manager_shutdown waitpid_error p m of
           (p', m', waited, r) \<Rightarrow> Terminated p' m' waited r)
      else if sig = SIGHUP then
        (case manager_reload p m of (p', m') \<Rightarrow> Continues p' m')
      else Continues p m)"

section \<open>The worker\<close>

subsection \<open>The fault barrier\<close>

text \<open>
  What a piece of user code (a hook of the service, its constructor) does when it is
  called: it returns, it raises, or it does not come back.
\<close>

datatype hook_result = Returns | Raises py_exception | Hangs

text \<open>
  How a thread of the worker ends: its body returns, it stays blocked, an exception
  leaves it (the thread dies, the process lives on), or the whole process ends with a
  status.
\<close>

datatype thread_outcome =
    ThreadReturns
  | ThreadBlocked
  | ThreadRaises py_exception
  | ProcessExits int

text \<open>
  \<^verbatim>\<open>os._exit(n)\<close> takes a C \<^verbatim>\<open>int\<close>, 32 bits wide on the platforms of \<^verbatim>\<open>os.fork\<close>: called
  with an integer outside that range it raises \<^verbatim>\<open>OverflowError\<close>, and with an argument that
  is not an integer \<^verbatim>\<open>TypeError\<close>; in both cases the process goes on. Otherwise it ends
  the process at once, and the exit status that the parent reads from \<^verbatim>\<open>os.waitpid\<close> is
  the low eight bits of \<open>n\<close>. \<open>ProcessExits\<close> carries that status.
\<close>

definition c_int :: "int \<Rightarrow> bool" where
  "c_int n = (- (2 ^ 31) \<le> n \<and> n < 2 ^ 31)"

definition os_exit :: "py_code \<Rightarrow> thread_outcome" where
  "os_exit code =
     (case code of
        CodeInt n \<Rightarrow> if c_int n then ProcessExits (n mod 256) else ThreadRaises OverflowError
      | _ \<Rightarrow> ThreadRaises TypeError)"

text \<open>
  \<^verbatim>\<open>
  @contextlib.contextmanager
  def _exit_on_exception():
      try:
          yield
      except SystemExit as exc:
          os._exit(exc.code)
      except BaseException:
          LOG.exception('Unhandled exception')
          os._exit(2)
  \<close>
  The argument is what the body of the \<^verbatim>\<open>with\<close> block does.
\<close>

definition exit_on_exception :: "hook_result \<Rightarrow> thread_outcome" where
  "exit_on_exception body =
     (case body of
        Returns \<Rightarrow> ThreadReturns
      | Hangs \<Rightarrow> ThreadBlocked
      | Raises (SystemExit code) \<Rightarrow> os_exit code
      | Raises e \<Rightarrow> os_exit (CodeInt 2))"

subsection \<open>The service\<close>

text \<open>
  A class of services, as the user writes it: a subclass of \<^verbatim>\<open>Service\<close> with the
  attributes and methods it overrides (\<open>None\<close>: not overridden), and what its
  constructor does.
\<close>

record service_class =
  class_name :: string
  name_attribute :: "string option"
  timeout_attribute :: "int option"
  init_body :: hook_result
  run_body :: "hook_result option"
  terminate_body :: "hook_result option"
  reload_body :: "hook_result option"

text \<open>
  \<^verbatim>\<open>
  class Service(object):
      name = None
      graceful_shutdown_timeout = 60
      """Timeout after which a gracefully shutdown service will exit. zero means
      endless wait."""
  \<close>
\<close>

definition Service_graceful_shutdown_timeout :: int where
  "Service_graceful_shutdown_timeout = 60"

text \<open>
  The object after \<^verbatim>\<open>_initialize\<close>:
  \<^verbatim>\<open>
  if self.name is None:
      self.name = self.__class__.__name__
  self.worker_id = worker_id
  self.pid = os.getpid()
  \<close>
  The attribute \<^verbatim>\<open>graceful_shutdown_timeout\<close> is read from the subclass when it defines
  one and from \<^verbatim>\<open>Service\<close> otherwise.
\<close>

record service_object =
  service_cls :: service_class
  name :: string
  worker_id :: int
  pid :: nat

definition Service_initialize :: "service_class \<Rightarrow> int \<Rightarrow> nat \<Rightarrow> service_object" where
  "Service_initialize c wid cpid =
     \<lparr>service_cls = c,
      name = (case name_attribute c of None \<Rightarrow> class_name c | Some n \<Rightarrow> n),
      worker_id = wid,
      pid = cpid\<rparr>"

definition graceful_shutdown_timeout :: "service_object \<Rightarrow> int" where
  "graceful_shutdown_timeout svc =
     (case timeout_attribute (service_cls svc) of
        None \<Rightarrow> Service_graceful_shutdown_timeout
      | Some t \<Rightarrow> t)"

text \<open>
  The hooks. \<^verbatim>\<open>Service.run\<close> and \<^verbatim>\<open>Service.terminate\<close> have empty bodies;
  \<^verbatim>\<open>Service.reload\<close> is \<^verbatim>\<open>os.kill(os.getpid(), signal.SIGTERM)\<close>. The second component is
  the list of the signals the hook sends to its own process.
\<close>

definition service_run_hook :: "service_object \<Rightarrow> hook_result" where
  "service_run_hook svc = (case run_body (service_cls svc) of None \<Rightarrow> Returns | Some r \<Rightarrow> r)"

definition service_terminate_hook :: "service_object \<Rightarrow> hook_result" where
  "service_terminate_hook svc =
     (case terminate_body (service_cls svc) of None \<Rightarrow> Returns | Some r \<Rightarrow> r)"

definition service_reload_hook :: "service_object \<Rightarrow> hook_result \<times> signal list" where
  "service_reload_hook svc =
     (case reload_body (service_cls svc) of None \<Rightarrow> (Returns, [SIGTERM]) | Some r \<Rightarrow> (r, []))"

text \<open>
  \<^verbatim>\<open>
  def _reload(self):
      with _exit_on_exception():
          if self._signal_lock.acquire(False):
              try:
                  self.reload()
              finally:
                  self._signal_lock.release()

  def _terminate(self):
      with _exit_on_exception(), self._signal_lock:
          self.terminate()
          sys.exit(0)

  def _run(self):
      with _exit_on_exception():
          self.run()
  \<close>
  \<open>acquired\<close> says whether the thread gets the lock: for \<^verbatim>\<open>acquire(False)\<close> whether the
  lock is free, for the blocking \<^verbatim>\<open>with self._signal_lock\<close> whether its holder ever
  releases it. \<^verbatim>\<open>sys.exit(0)\<close> raises \<^verbatim>\<open>SystemExit(0)\<close>.
\<close>

definition service_reload :: "service_object \<Rightarrow> bool \<Rightarrow> thread_outcome \<times> signal list" where
  "service_reload svc acquired =
     (if acquired then
        (case service_reload_hook svc of (r, sigs) \<Rightarrow> (exit_on_exception r, sigs))
      else (exit_on_exception Returns, []))"

definition service_terminate :: "service_object \<Rightarrow> bool \<Rightarrow> thread_outcome" where
  "service_terminate svc acquired =
     exit_on_exception
       (if acquired then
          (case service_terminate_hook svc of
             Returns \<Rightarrow> Raises (SystemExit (CodeInt 0))
           | r \<Rightarrow> r)
        else Hangs)"

definition service_run :: "service_object \<Rightarrow> thread_outcome" where
  "service_run svc = exit_on_exception (service_run_hook svc)"

subsection \<open>The child process\<close>

datatype thread = Thread_run | Thread_terminate | Thread_reload | Thread_watch_parent

text \<open>
  What the main thread of the child does to its process, in order: \<^verbatim>\<open>signal.alarm(n)\<close>
  and \<^verbatim>\<open>_spawn(target)\<close>.
\<close>

datatype child_effect = Alarm int | Spawn thread

record child_process =
  child_service :: service_object
  child_signals_received :: "signal list"
  effects :: "child_effect list"

text \<open>
  \<^verbatim>\<open>
  def __init__(self, config, worker_id):
      super(_ChildProcess, self).__init__()
      args = tuple() if config.args is None else config.args
      kwargs = dict() if config.kwargs is None else config.kwargs
      self._service = config.service(worker_id, *args, **kwargs)
      self._service._initialize(worker_id)
      ...
  \<close>
  The call of the factory raises what the constructor of the service raises.
\<close>

definition ChildProcess_init :: "service_class \<Rightarrow> int \<Rightarrow> nat \<Rightarrow> hook_result + child_process" where
  "ChildProcess_init c wid cpid =
     (case init_body c of
        Returns \<Rightarrow>
          Inr \<lparr>child_service = Service_initialize c wid cpid,
               child_signals_received = [],
               effects = []\<rparr>
      | r \<Rightarrow> Inl r)"

text \<open>
  \<^verbatim>\<open>
  def _on_signal_received(self, sig):
      if sig == signal.SIGALRM:
          LOG.info(...)
          os._exit(1)
      elif sig == signal.SIGTERM:
          LOG.info(...)
          if self._service.graceful_shutdown_timeout > 0:
              signal.alarm(self._service.graceful_shutdown_timeout)
          _spawn(self._service._terminate)
      elif sig == signal.SIGHUP:
          _spawn(self._service._reload)
  \<close>
\<close>

definition child_on_signal_received :: "signal \<Rightarrow> child_process \<Rightarrow> child_process progress" where
  "child_on_signal_received sig c =
     (if sig = SIGALRM then Exited 1
      else if sig = SIGTERM then
        (let c1 = (if graceful_shutdown_timeout (child_service c) > 0
                   then c\<lparr>effects := effects c
                                @ [Alarm (graceful_shutdown_timeout (child_service c))]\<rparr>
                   else c)
         in Running (c1\<lparr>effects := effects c1 @ [Spawn Thread_terminate]\<rparr>))
      else if sig = SIGHUP then Running (c\<lparr>effects := effects c @ [Spawn Thread_reload]\<rparr>)
      else Running c)"

text \<open>
  The child's side of \<^verbatim>\<open>_start_worker\<close>, after the handlers are reset, the descriptors
  closed and the watchdog spawned:
  \<^verbatim>\<open>
  with _exit_on_exception():
      self._current_process = _ChildProcess(self._services[service_id],
                                            worker_id)
      self._current_process.wait_forever()
  \<close>
  \<^verbatim>\<open>wait_forever\<close> spawns the thread of \<^verbatim>\<open>_run\<close> and enters the wait loop, which only the
  end of the process leaves. The result is the end of the process during construction,
  or the child as it enters the loop.
\<close>

definition child_main :: "service_class \<Rightarrow> int \<Rightarrow> nat \<Rightarrow> thread_outcome + child_process" where
  "child_main c wid cpid =
     (case ChildProcess_init c wid cpid of
        Inl r \<Rightarrow> Inl (exit_on_exception r)
      | Inr child \<Rightarrow>
          Inr (child\<lparr>effects := Spawn Thread_watch_parent # effects child @ [Spawn Thread_run]\<rparr>))"

section \<open>The readiness notification\<close>

text \<open>
  \<open>environ\<close> is \<^verbatim>\<open>os.environ\<close>; \<open>datagrams\<close> logs every datagram that has been handed to a
  socket, with the address it was connected to. \<open>network\<close> is how the calls on the
  socket go: each either succeeds or raises \<^verbatim>\<open>OSError\<close> with the given error.
\<close>

record notify_world =
  environ :: "(string \<times> string) list"
  datagrams :: "(string \<times> string) list"

record network =
  socket_error :: "errno option"
  connect_error :: "string \<Rightarrow> errno option"
  sendall_error :: "errno option"

text \<open>
  \<^verbatim>\<open>
  @staticmethod
  def _systemd_notify_once():
      notify_socket = os.getenv('NOTIFY_SOCKET')
      if notify_socket:
          if notify_socket.startswith('@'):
              # abstract namespace socket
              notify_socket = '\0%s' % notify_socket[1:]
          sock = socket.socket(socket.AF_UNIX, socket.SOCK_DGRAM)
          with contextlib.closing(sock):
              try:
                  sock.connect(notify_socket)
                  sock.sendall(b'READY=1')
                  del os.environ['NOTIFY_SOCKET']
              except EnvironmentError:
                  LOG.debug("Systemd notification failed", exc_info=True)
  \<close>
  \<^verbatim>\<open>if notify_socket:\<close> is false for \<^verbatim>\<open>None\<close> and for the empty string. The call of
  \<^verbatim>\<open>socket.socket\<close> stands before the \<^verbatim>\<open>try\<close>.
\<close>

definition systemd_notify_once :: "network \<Rightarrow> notify_world \<Rightarrow> py_exception + notify_world" where
  "systemd_notify_once net w =
     (case map_of (environ w) ''NOTIFY_SOCKET'' of
        None \<Rightarrow> Inr w
      | Some notify_socket \<Rightarrow>
          if notify_socket = [] then Inr w
          else
            (let address = (if take 1 notify_socket = ''@''
                            then CHR 0x00 # drop 1 notify_socket
                            else notify_socket)
             in case socket_error net of
                  Some e \<Rightarrow> Inl (OSError e)
                | None \<Rightarrow>
                    (case connect_error net address of
                       Some e \<Rightarrow> Inr w
                     | None \<Rightarrow>
                         (case sendall_error net of
                            Some e \<Rightarrow> Inr w
                          | None \<Rightarrow>
                              Inr (w\<lparr>datagrams := datagrams w @ [(address, ''READY=1'')],
                                     environ := AList.delete ''NOTIFY_SOCKET'' (environ w)\<rparr>)))))"

section \<open>Properties\<close>

lemma signal_catcher_foldl:
  "foldl signal_catcher q sigs =
     rev (filter (\<lambda>s. s \<in> set [SIGALRM, SIGTERM]) sigs) @ q
       @ filter (\<lambda>s. s \<notin> set [SIGALRM, SIGTERM]) sigs"
  by (induction sigs arbitrary: q) (auto simp: signal_catcher_def)

lemma run_signal_handlers_split:
  "run_signal_handlers h q s = (d, q', r) \<Longrightarrow> d @ q' = q"
  by (induction q arbitrary: s d q' r) (auto split: progress.splits prod.splits)

lemma run_signal_handlers_all:
  "run_signal_handlers h q s = (d, q', Running s') \<Longrightarrow> d = q \<and> q' = []"
  by (induction q arbitrary: s d q' s') (auto split: progress.splits prod.splits)

lemma terminate_first_nth:
  assumes "\<forall>t \<in> set ts. P t" and "\<forall>r \<in> set rs. \<not> P r"
    and "i < j" and "j < length (ts @ rs)" and "P ((ts @ rs) ! j)"
  shows "P ((ts @ rs) ! i)"
proof -
  have "j < length ts"
  proof (rule ccontr)
    assume "\<not> j < length ts"
    then have "(ts @ rs) ! j = rs ! (j - length ts)" and "j - length ts < length rs"
      using assms(4) by (auto simp: nth_append)
    then have "(ts @ rs) ! j \<in> set rs" by simp
    with assms(2,5) show False by blast
  qed
  with assms(3) have "i < length ts" by simp
  then have "(ts @ rs) ! i \<in> set ts" by (simp add: nth_append)
  with assms(1) show ?thesis by blast
qed

lemma empty_signal_pipe_eq: "empty_signal_pipe pipe = drop 4096 pipe"
  by (simp add: os_read_def)

subsection \<open>C3: draining the self-pipe\<close>

text \<open>
  C3. The drain is to read the self-pipe until it is empty and to swallow the error of
  a read that finds no data. The method swallows that error: on an empty pipe it returns
  and the pipe is as before. It does not read until the pipe is empty: the loop
  condition compares the bytes read with the integer 4096, which is never equal, so
  exactly one read of at most 4096 bytes is made (\<open>empty_signal_pipe_eq\<close>). With 4097
  bytes in the pipe, one byte is still unread when the method returns.
\<close>

theorem empty_signal_pipe_leaves_bytes:
  "empty_signal_pipe [] = [] \<and> empty_signal_pipe (replicate 4097 b) = [b]"
  by (simp add: os_read_def)

subsection \<open>C5: terminate before reload\<close>

text \<open>
  C5. The catcher puts SIGTERM and SIGALRM at the left end of the queue and SIGHUP at
  the right end. The dispatcher pops from the left: the signals it hands to the hook
  followed by the signals it leaves are the queue it started with, and it hands over
  the whole queue when the hook never ends the process. So for every sequence \<open>sigs\<close> of
  signals caught before the dispatcher runs, no signal that is dispatched before a
  SIGTERM or SIGALRM is a reload: whatever is dispatched earlier is itself SIGTERM or
  SIGALRM.
\<close>

theorem signal_queue_terminate_before_reload:
  "signal_catcher q SIGTERM = SIGTERM # q \<and>
   signal_catcher q SIGALRM = SIGALRM # q \<and>
   signal_catcher q SIGHUP = q @ [SIGHUP] \<and>
   (run_signal_handlers h (foldl signal_catcher [] sigs) s = (d, q', r) \<longrightarrow>
      d @ q' = foldl signal_catcher [] sigs \<and>
      (\<forall>s'. r = Running s' \<longrightarrow> d = foldl signal_catcher [] sigs) \<and>
      (\<forall>i j. i < j \<and> j < length d \<and> d ! j \<in> set [SIGALRM, SIGTERM]
          \<longrightarrow> d ! i \<in> set [SIGALRM, SIGTERM]))"
proof -
  let ?P = "\<lambda>s. s \<in> set [SIGALRM, SIGTERM]"
  let ?ts = "rev (filter ?P sigs)"
  let ?rs = "filter (\<lambda>s. \<not> ?P s) sigs"
  have q_eq: "foldl signal_catcher [] sigs = ?ts @ ?rs"
    by (simp add: signal_catcher_foldl)
  have order: "?P (d ! i)"
    if run: "run_signal_handlers h (foldl signal_catcher [] sigs) s = (d, q', r)"
      and ij: "i < j" "j < length d" and tj: "?P (d ! j)" for i j
  proof -
    from run have dq: "d @ q' = ?ts @ ?rs"
      using run_signal_handlers_split q_eq by metis
    from ij have nth: "d ! j = (?ts @ ?rs) ! j" "d ! i = (?ts @ ?rs) ! i"
      by (metis dq nth_append order_less_trans)+
    have len: "j < length (?ts @ ?rs)"
      by (metis dq ij(2) length_append trans_less_add1)
    have "?P ((?ts @ ?rs) ! i)"
      by (rule terminate_first_nth [where P = ?P and j = j])
         (use ij len tj nth in auto)
    with nth show ?thesis by simp
  qed
  show ?thesis
    using order run_signal_handlers_split [of h _ s d q' r]
      run_signal_handlers_all [of h _ s d q']
    by (simp add: signal_catcher_def) blast
qed

text \<open>
  The theorem at the sequence HUP, TERM, HUP, ALRM with a hook that records what it is
  given: the two terminate-class signals are dispatched first.
\<close>

theorem signal_queue_terminate_before_reload_witness:
  "run_signal_handlers (\<lambda>sig s. Running (s @ [sig]))
       (foldl signal_catcher [] [SIGHUP, SIGTERM, SIGHUP, SIGALRM]) []
     = ([SIGALRM, SIGTERM, SIGHUP, SIGHUP], [], Running [SIGALRM, SIGTERM, SIGHUP, SIGHUP])
   \<and> [SIGALRM, SIGTERM, SIGHUP, SIGHUP] ! 1 \<in> set [SIGALRM, SIGTERM]
   \<and> [SIGALRM, SIGTERM, SIGHUP, SIGHUP] ! 0 \<in> set [SIGALRM, SIGTERM]"
  using signal_queue_terminate_before_reload
    [of "[]" "\<lambda>sig s. Running (s @ [sig])" "[SIGHUP, SIGTERM, SIGHUP, SIGALRM]" "[]"
        "[SIGALRM, SIGTERM, SIGHUP, SIGHUP]" "[]" "Running [SIGALRM, SIGTERM, SIGHUP, SIGHUP]"]
  by (simp add: signal_catcher_def)

subsection \<open>The supervisor's state transformers, unfolded\<close>

lemmas supervisor_defs =
  adjust_workers_def defaultdict_getitem_def py_range_def stop_worker_def os_kill_def
  start_worker_def slowdown_respawn_if_needed_def expected_children_def os_fork_def
  dict_setitem_def dict_delitem_def on_wakeup_def restart_dead_worker_def select_wait_def

subsection \<open>C1: stopping the excess workers\<close>

text \<open>
  Whatever the registry and the table hold, the adjust step sends no signal at all.
\<close>

lemma slowdown_sent:
  "slowdown_respawn_if_needed p m = Inr (p', m') \<Longrightarrow> sent p' = sent p"
  by (auto simp: slowdown_respawn_if_needed_def Let_def split: if_splits list.splits)

lemma start_worker_sent:
  "start_worker p m sid wid = Inr (p', m') \<Longrightarrow> sent p' = sent p"
  by (auto simp: start_worker_def os_fork_def dest!: slowdown_sent split: sum.splits prod.splits)

lemma start_workers_sent:
  "start_workers p m sid wids = Inr (p', m') \<Longrightarrow> sent p' = sent p"
proof (induction wids arbitrary: p m)
  case Nil
  then show ?case by simp
next
  case (Cons wid wids)
  from Cons.prems obtain p1 m1 where
    one: "start_worker p m sid wid = Inr (p1, m1)" and
    rest: "start_workers p1 m1 sid wids = Inr (p', m')"
    by (auto split: sum.splits)
  from Cons.IH [OF rest] start_worker_sent [OF one] show ?case by simp
qed

lemma adjust_workers_items_sent:
  "adjust_workers_items items p m = Inr (p', m') \<Longrightarrow> sent p' = sent p"
proof (induction items arbitrary: p m)
  case Nil
  then show ?case by simp
next
  case (Cons a items)
  obtain sid conf where a: "a = (sid, conf)" by (cases a)
  obtain inner d where get: "defaultdict_getitem (running_services m) sid = (inner, d)"
    by (cases "defaultdict_getitem (running_services m) sid")
  let ?m0 = "m\<lparr>running_services := d\<rparr>"
  consider (start) "int (length inner) < workers conf"
    | (stop) "\<not> int (length inner) < workers conf" "int (length inner) > workers conf"
    | (same) "\<not> int (length inner) < workers conf" "\<not> int (length inner) > workers conf"
    by blast
  then show ?case
  proof cases
    case start
    with Cons.prems a get obtain p1 m1 where
      one: "start_workers p ?m0 sid (py_range (int (length inner)) (workers conf)) = Inr (p1, m1)"
      and rest: "adjust_workers_items items p1 m1 = Inr (p', m')"
      by (auto simp: Let_def split: sum.splits)
    from Cons.IH [OF rest] start_workers_sent [OF one] show ?thesis by simp
  next
    case stop
    then have "py_range (int (length inner)) (workers conf) = []"
      by (simp add: py_range_def)
    with stop Cons.prems a get have rest: "adjust_workers_items items p ?m0 = Inr (p', m')"
      by (simp add: Let_def)
    from Cons.IH [OF rest] show ?thesis .
  next
    case same
    with Cons.prems a get have rest: "adjust_workers_items items p ?m0 = Inr (p', m')"
      by (auto simp: Let_def)
    from Cons.IH [OF rest] show ?thesis .
  qed
qed

lemma adjust_workers_sends_nothing:
  "adjust_workers p m = Inr (p', m') \<Longrightarrow> sent p' = sent p"
  using adjust_workers_items_sent by (simp add: adjust_workers_def)

text \<open>
  C1. When a service runs more workers than it should, one adjust-workers step is to
  send terminate to every worker whose id is at least the desired count. The method
  does not: its second loop runs over \<^verbatim>\<open>range(running_workers, conf.workers)\<close>, which is
  empty whenever \<open>running_workers > conf.workers\<close>, so \<^verbatim>\<open>_stop_worker\<close> is never called.
  With a desired count of 1 and workers 0 and 1 running as pids 101 and 102, the step
  returns with the process and the supervisor unchanged and nothing sent, while
  \<^verbatim>\<open>_stop_worker\<close> called for worker 1 would send SIGTERM to pid 102.
\<close>

theorem adjust_workers_sends_no_terminate:
  "adjust_workers p
     (m\<lparr>services := [(sid, \<lparr>service = srv, workers = 1, args = a, kwargs = kw, service_id = sid\<rparr>)],
        running_services := [(sid, [(101, 0), (102, 1)])]\<rparr>)
   = Inr (p, m\<lparr>services := [(sid, \<lparr>service = srv, workers = 1, args = a, kwargs = kw, service_id = sid\<rparr>)],
        running_services := [(sid, [(101, 0), (102, 1)])]\<rparr>)
   \<and> stop_worker p
     (m\<lparr>services := [(sid, \<lparr>service = srv, workers = 1, args = a, kwargs = kw, service_id = sid\<rparr>)],
        running_services := [(sid, [(101, 0), (102, 1)])]\<rparr>) sid 1
   = (p\<lparr>sent := sent p @ [(102, SIGTERM)]\<rparr>,
      m\<lparr>services := [(sid, \<lparr>service = srv, workers = 1, args = a, kwargs = kw, service_id = sid\<rparr>)],
        running_services := [(sid, [(101, 0), (102, 1)])]\<rparr>)"
  by (simp add: supervisor_defs)

subsection \<open>C2: the fork-rate bound\<close>

text \<open>
  With an empty ledger and desired counts that do not sum below zero, the governor
  returns at once, and so does every later call: a wake-up leaves the ledger empty and
  the clock where it was, however many children it forks.
\<close>

lemma governor_never_sleeps:
  "forktimes m = [] \<Longrightarrow> 0 \<le> expected_children m \<Longrightarrow>
     slowdown_respawn_if_needed p m = Inr (p, m)"
  by (simp add: slowdown_respawn_if_needed_def)

lemma start_worker_unthrottled:
  assumes "forktimes m = []" and "0 \<le> expected_children m"
    and "start_worker p m sid wid = Inr (p', m')"
  shows "forktimes m' = [] \<and> services m' = services m \<and> clock p' = clock p
           \<and> sent p' = sent p"
  using assms(3) governor_never_sleeps [OF assms(1,2), of p] assms(1)
  by (auto simp: start_worker_def os_fork_def split: prod.splits)

lemma start_workers_unthrottled:
  "forktimes m = [] \<Longrightarrow> 0 \<le> expected_children m \<Longrightarrow>
     start_workers p m sid wids = Inr (p', m') \<Longrightarrow>
     forktimes m' = [] \<and> services m' = services m \<and> clock p' = clock p \<and> sent p' = sent p"
proof (induction wids arbitrary: p m)
  case Nil
  then show ?case by simp
next
  case (Cons wid wids)
  from Cons.prems(3) obtain p1 m1 where
    one: "start_worker p m sid wid = Inr (p1, m1)" and
    rest: "start_workers p1 m1 sid wids = Inr (p', m')"
    by (auto split: sum.splits)
  from start_worker_unthrottled [OF Cons.prems(1,2) one]
  have s1: "forktimes m1 = []" "services m1 = services m" "clock p1 = clock p" "sent p1 = sent p"
    by simp_all
  then have "0 \<le> expected_children m1"
    using Cons.prems(2) by (simp add: expected_children_def)
  from Cons.IH [OF s1(1) this rest] s1 show ?case by simp
qed

lemma adjust_workers_items_unthrottled:
  "forktimes m = [] \<Longrightarrow> 0 \<le> expected_children m \<Longrightarrow>
     adjust_workers_items items p m = Inr (p', m') \<Longrightarrow>
     forktimes m' = [] \<and> services m' = services m \<and> clock p' = clock p \<and> sent p' = sent p"
proof (induction items arbitrary: p m)
  case Nil
  then show ?case by simp
next
  case (Cons a items)
  obtain sid conf where a: "a = (sid, conf)" by (cases a)
  obtain inner d where get: "defaultdict_getitem (running_services m) sid = (inner, d)"
    by (cases "defaultdict_getitem (running_services m) sid")
  let ?m0 = "m\<lparr>running_services := d\<rparr>"
  have m0: "forktimes ?m0 = []" "0 \<le> expected_children ?m0"
    using Cons.prems(1,2) by (simp_all add: expected_children_def)
  consider (start) "int (length inner) < workers conf"
    | (stop) "\<not> int (length inner) < workers conf" "int (length inner) > workers conf"
    | (same) "\<not> int (length inner) < workers conf" "\<not> int (length inner) > workers conf"
    by blast
  then show ?case
  proof cases
    case start
    with Cons.prems(3) a get obtain p1 m1 where
      one: "start_workers p ?m0 sid (py_range (int (length inner)) (workers conf)) = Inr (p1, m1)"
      and rest: "adjust_workers_items items p1 m1 = Inr (p', m')"
      by (auto simp: Let_def split: sum.splits)
    from start_workers_unthrottled [OF m0 one]
    have s1: "forktimes m1 = []" "services m1 = services m" "clock p1 = clock p"
      "sent p1 = sent p" by simp_all
    then have "0 \<le> expected_children m1"
      using Cons.prems(2) by (simp add: expected_children_def)
    from Cons.IH [OF s1(1) this rest] s1 show ?thesis by simp
  next
    case stop
    then have "py_range (int (length inner)) (workers conf) = []"
      by (simp add: py_range_def)
    with stop Cons.prems(3) a get have rest: "adjust_workers_items items p ?m0 = Inr (p', m')"
      by (simp add: Let_def)
    from Cons.IH [OF m0 rest] show ?thesis by simp
  next
    case same
    with Cons.prems(3) a get have rest: "adjust_workers_items items p ?m0 = Inr (p', m')"
      by (auto simp: Let_def)
    from Cons.IH [OF m0 rest] show ?thesis by simp
  qed
qed

lemma restart_dead_workers_unthrottled:
  "forktimes m = [] \<Longrightarrow> 0 \<le> expected_children m \<Longrightarrow>
     restart_dead_workers p m dead = Inr (p', m') \<Longrightarrow>
     forktimes m' = [] \<and> services m' = services m \<and> clock p' = clock p \<and> sent p' = sent p"
proof (induction dead arbitrary: p m)
  case Nil
  then show ?case by simp
next
  case (Cons c dead)
  from Cons.prems(3) obtain p1 m1 where
    one: "restart_dead_worker p m c = Inr (p1, m1)" and
    rest: "restart_dead_workers p1 m1 dead = Inr (p', m')"
    by (auto split: sum.splits)
  have s1: "forktimes m1 = [] \<and> services m1 = services m \<and> clock p1 = clock p
      \<and> sent p1 = sent p"
  proof (cases "find_pid (running_services m) c")
    case None
    with one show ?thesis using Cons.prems(1) by (simp add: restart_dead_worker_def)
  next
    case (Some a)
    obtain sid wid where a: "a = (sid, wid)" by (cases a)
    obtain inner d where get: "defaultdict_getitem (running_services m) sid = (inner, d)"
      by (cases "defaultdict_getitem (running_services m) sid")
    let ?m0 = "m\<lparr>running_services := dict_setitem d sid (dict_delitem inner c)\<rparr>"
    from one Some a get have sw: "start_worker p ?m0 sid wid = Inr (p1, m1)"
      by (simp add: restart_dead_worker_def)
    have "forktimes ?m0 = []" "0 \<le> expected_children ?m0"
      using Cons.prems(1,2) by (simp_all add: expected_children_def)
    from start_worker_unthrottled [OF this sw] show ?thesis by simp
  qed
  then have "0 \<le> expected_children m1"
    using Cons.prems(2) by (simp add: expected_children_def)
  from Cons.IH [OF _ this rest] s1 show ?case by simp
qed

lemma on_wakeup_never_sleeps:
  assumes "forktimes m = []" and "0 \<le> expected_children m"
    and "on_wakeup p m dead = Inr (p', m')"
  shows "forktimes m' = [] \<and> services m' = services m \<and> clock p' = clock p \<and> sent p' = sent p"
proof -
  from assms(3) obtain p1 m1 where
    one: "restart_dead_workers p m dead = Inr (p1, m1)" and
    rest: "adjust_workers_items (services m1) p1 m1 = Inr (p', m')"
    by (auto simp: on_wakeup_def adjust_workers_def split: sum.splits)
  from restart_dead_workers_unthrottled [OF assms(1,2) one]
  have s1: "forktimes m1 = []" "services m1 = services m" "clock p1 = clock p"
    "sent p1 = sent p" by simp_all
  then have "0 \<le> expected_children m1"
    using assms(2) by (simp add: expected_children_def)
  from adjust_workers_items_unthrottled [OF s1(1) this rest] s1 show ?thesis by simp
qed

text \<open>
  C2. Under sustained respawn no more than \<open>expected_children\<close> forks are to occur in
  any window of \<open>expected_children\<close> seconds. The governor only sleeps when
  \<^verbatim>\<open>_forktimes\<close> is longer than \<open>expected_children\<close>, and the only statement that appends
  to \<^verbatim>\<open>_forktimes\<close> stands inside that branch, so the ledger stays empty and the governor
  never sleeps. With one service of one worker whose child exits at once, and a wake-up
  every hundredth of a second, the supervisor forks at 0, 0.01, 0.02 and 0.03 seconds:
  four forks within a window of one second, where \<open>expected_children\<close> is 1.
\<close>

theorem respawn_is_not_slowed_down:
  "wait_forever_idle (p\<lparr>clock := 0, last_pid := 100, forks := []\<rparr>)
     (m\<lparr>services := [(sid, \<lparr>service = srv, workers = 1, args = a, kwargs = kw, service_id = sid\<rparr>)],
        running_services := [], forktimes := []\<rparr>)
     [([], 1/100), ([101], 1/100), ([102], 1/100), ([103], 1/100)]
   = Inr (p\<lparr>clock := 4/100, last_pid := 104,
            forks := [(0, 101), (1/100, 102), (2/100, 103), (3/100, 104)]\<rparr>,
          m\<lparr>services := [(sid, \<lparr>service = srv, workers = 1, args = a, kwargs = kw, service_id = sid\<rparr>)],
            running_services := [(sid, [(104, 0)])], forktimes := []\<rparr>)"
  by (simp add: supervisor_defs)

subsection \<open>C4: reconfiguring an unknown service\<close>

text \<open>
  C4. For an id that is not registered, \<^verbatim>\<open>reconfigure\<close> is to fail with the error
  raised for an unknown service. The lookup in the registry raises \<^verbatim>\<open>KeyError\<close>, the
  handler catches \<^verbatim>\<open>IndexError\<close> only, so the \<^verbatim>\<open>KeyError\<close> of the lookup leaves the method
  and the \<^verbatim>\<open>ValueError\<close> of the handler is never raised. The state is unchanged, and for
  a registered id the desired count is set and the ledger reset.
\<close>

theorem reconfigure_unknown_raises_KeyError:
  "reconfigure (m\<lparr>services := []\<rparr>) sid w = (Some (KeyError sid), m\<lparr>services := []\<rparr>)
   \<and> reconfigure (m\<lparr>services := [(sid, conf)]\<rparr>) sid w
       = (None, m\<lparr>services := [(sid, conf\<lparr>workers := w\<rparr>)], forktimes := []\<rparr>)"
  by (simp add: reconfigure_def dict_getitem_def dict_setitem_def)

lemma reconfigure_never_ValueError: "fst (reconfigure m sid w) \<noteq> Some (ValueError k)"
  by (auto simp: reconfigure_def dict_getitem_def split: option.splits)

subsection \<open>C6: the exit status of a worker\<close>

lemmas worker_defs = exit_on_exception_def os_exit_def c_int_def service_terminate_def
  service_run_def service_reload_def child_main_def ChildProcess_init_def
  service_terminate_hook_def service_run_hook_def service_reload_hook_def
  Service_initialize_def

text \<open>
  C6, as stated, fails where the code of the exit request is not a status. The barrier
  hands \<^verbatim>\<open>exc.code\<close> to \<^verbatim>\<open>os._exit\<close> as it is: a worker whose \<^verbatim>\<open>terminate\<close> raises
  \<^verbatim>\<open>SystemExit(256)\<close> ends with status 0 and not 256, \<^verbatim>\<open>SystemExit(-1)\<close> gives status 255,
  and for \<^verbatim>\<open>SystemExit(2**31)\<close> and \<^verbatim>\<open>SystemExit(None)\<close> the call of \<^verbatim>\<open>os._exit\<close> raises and
  the process does not exit in the barrier at all.
\<close>

theorem worker_exit_status_counterexample:
  "service_terminate
      (Service_initialize
        \<lparr>class_name = ''MyService'', name_attribute = None, timeout_attribute = None,
         init_body = Returns, run_body = None,
         terminate_body = Some (Raises (SystemExit (CodeInt 256))), reload_body = None\<rparr> 0 101)
      True = ProcessExits 0
   \<and> exit_on_exception (Raises (SystemExit (CodeInt (- 1)))) = ProcessExits 255
   \<and> exit_on_exception (Raises (SystemExit (CodeInt 2147483648))) = ThreadRaises OverflowError
   \<and> exit_on_exception (Raises (SystemExit CodeNone)) = ThreadRaises TypeError"
  by (simp add: worker_defs)

text \<open>
  C6, amended. A worker ends with status 0 when \<^verbatim>\<open>terminate()\<close> returns (the thread of
  \<^verbatim>\<open>_terminate\<close> then raises \<^verbatim>\<open>SystemExit(0)\<close>). When a hook or the constructor of the
  service raises \<^verbatim>\<open>SystemExit(n)\<close> for an integer \<open>n\<close> of the C \<^verbatim>\<open>int\<close> range, the worker ends
  with status \<open>n mod 256\<close>, which is the carried code itself for \<open>0 \<le> n \<le> 255\<close>, zero or
  not. It ends with status 1 when the dispatcher hands SIGALRM to the child, and with
  status 2 when any exception that is not a \<^verbatim>\<open>SystemExit\<close> leaves a hook or the
  constructor. Each but the alarm goes through \<open>exit_on_exception\<close>, which passes the code
  of a \<^verbatim>\<open>SystemExit\<close> to \<^verbatim>\<open>os._exit\<close> and turns every other exception into \<^verbatim>\<open>os._exit(2)\<close>.
\<close>

theorem worker_exit_status:
  "service_terminate (Service_initialize (c\<lparr>terminate_body := None\<rparr>) wid cpid) True
     = ProcessExits 0 \<and>
   service_terminate (Service_initialize (c\<lparr>terminate_body := Some Returns\<rparr>) wid cpid) True
     = ProcessExits 0 \<and>
   (c_int n \<longrightarrow>
      exit_on_exception (Raises (SystemExit (CodeInt n))) = ProcessExits (n mod 256) \<and>
      service_terminate
        (Service_initialize (c\<lparr>terminate_body := Some (Raises (SystemExit (CodeInt n)))\<rparr>) wid cpid) True
        = ProcessExits (n mod 256) \<and>
      service_run (Service_initialize (c\<lparr>run_body := Some (Raises (SystemExit (CodeInt n)))\<rparr>) wid cpid)
        = ProcessExits (n mod 256) \<and>
      fst (service_reload
             (Service_initialize (c\<lparr>reload_body := Some (Raises (SystemExit (CodeInt n)))\<rparr>) wid cpid) True)
        = ProcessExits (n mod 256) \<and>
      child_main (c\<lparr>init_body := Raises (SystemExit (CodeInt n))\<rparr>) wid cpid = Inl (ProcessExits (n mod 256))) \<and>
   (0 \<le> n \<and> n \<le> 255 \<longrightarrow>
      exit_on_exception (Raises (SystemExit (CodeInt n))) = ProcessExits n \<and>
      service_terminate
        (Service_initialize (c\<lparr>terminate_body := Some (Raises (SystemExit (CodeInt n)))\<rparr>) wid cpid) True
        = ProcessExits n \<and>
      service_run (Service_initialize (c\<lparr>run_body := Some (Raises (SystemExit (CodeInt n)))\<rparr>) wid cpid)
        = ProcessExits n \<and>
      fst (service_reload
             (Service_initialize (c\<lparr>reload_body := Some (Raises (SystemExit (CodeInt n)))\<rparr>) wid cpid) True)
        = ProcessExits n \<and>
      child_main (c\<lparr>init_body := Raises (SystemExit (CodeInt n))\<rparr>) wid cpid = Inl (ProcessExits n)) \<and>
   child_on_signal_received SIGALRM child = Exited 1 \<and>
   run_signal_handlers child_on_signal_received (SIGALRM # q) child = ([SIGALRM], q, Exited 1) \<and>
   ((\<forall>code. e \<noteq> SystemExit code) \<longrightarrow>
      exit_on_exception (Raises (e)) = ProcessExits 2 \<and>
      service_terminate
        (Service_initialize (c\<lparr>terminate_body := Some (Raises (e))\<rparr>) wid cpid) True
        = ProcessExits 2 \<and>
      service_run (Service_initialize (c\<lparr>run_body := Some (Raises (e))\<rparr>) wid cpid)
        = ProcessExits 2 \<and>
      fst (service_reload
             (Service_initialize (c\<lparr>reload_body := Some (Raises (e))\<rparr>) wid cpid) True)
        = ProcessExits 2 \<and>
      child_main (c\<lparr>init_body := Raises (e)\<rparr>) wid cpid = Inl (ProcessExits 2))"
proof -
  have alarm: "child_on_signal_received SIGALRM child = Exited 1"
    by (simp add: child_on_signal_received_def)
  have other: "exit_on_exception (Raises e) = ProcessExits 2" if "\<forall>code. e \<noteq> SystemExit code"
    using that by (cases e) (simp_all add: exit_on_exception_def os_exit_def c_int_def)
  have small: "c_int n \<and> n mod 256 = n" if "0 \<le> n \<and> n \<le> 255"
    using that by (simp add: c_int_def)
  show ?thesis
    using alarm other small by (simp add: worker_defs)
qed

text \<open>
  The theorem at worker 0 of a class that overrides nothing: with the default
  \<^verbatim>\<open>terminate\<close> it ends with status 0, with a \<^verbatim>\<open>terminate\<close> that raises \<^verbatim>\<open>SystemExit(3)\<close> with
  status 3, with one that raises \<^verbatim>\<open>SystemExit(259)\<close> with status 3 as well, and with a
  \<^verbatim>\<open>run\<close> that raises another exception with status 2.
\<close>

theorem worker_exit_status_witness:
  "c_int 259 \<and> (0::int) \<le> 3 \<and> (3::int) \<le> 255
   \<and> service_terminate
      (Service_initialize
        \<lparr>class_name = ''MyService'', name_attribute = None, timeout_attribute = None,
         init_body = Returns, run_body = None,
         terminate_body = None, reload_body = None\<rparr> 0 101)
      True = ProcessExits 0
   \<and> service_terminate
      (Service_initialize
        \<lparr>class_name = ''MyService'', name_attribute = None, timeout_attribute = None,
         init_body = Returns, run_body = None,
         terminate_body = Some (Raises (SystemExit (CodeInt 3))), reload_body = None\<rparr> 0 101)
      True = ProcessExits 3
   \<and> service_terminate
      (Service_initialize
        \<lparr>class_name = ''MyService'', name_attribute = None, timeout_attribute = None,
         init_body = Returns, run_body = None,
         terminate_body = Some (Raises (SystemExit (CodeInt 259))), reload_body = None\<rparr> 0 101)
      True = ProcessExits 3
   \<and> service_run
      (Service_initialize
        \<lparr>class_name = ''MyService'', name_attribute = None, timeout_attribute = None,
         init_body = Returns, run_body = Some (Raises (UserError ''boom'')),
         terminate_body = None, reload_body = None\<rparr> 0 101)
      = ProcessExits 2"
  using worker_exit_status
      [of "\<lparr>class_name = ''MyService'', name_attribute = None, timeout_attribute = None,
         init_body = Returns, run_body = None,
         terminate_body = None, reload_body = None\<rparr>" 0 101 259 _ _ "UserError ''boom''"]
    worker_exit_status
      [of "\<lparr>class_name = ''MyService'', name_attribute = None, timeout_attribute = None,
         init_body = Returns, run_body = None,
         terminate_body = None, reload_body = None\<rparr>" 0 101 3 _ _ "UserError ''boom''"]
  by (simp add: c_int_def)

subsection \<open>C7: the readiness notification\<close>

lemma map_of_delete_same: "map_of (AList.delete k al) k = None"
  by (simp add: AList.delete_conv')

text \<open>
  C7, as stated, fails in two places. A variable that is set to the empty string is
  set, and the notifier sends nothing: the guard \<^verbatim>\<open>if notify_socket:\<close> treats the empty
  value like a missing one. And an error of \<^verbatim>\<open>socket.socket\<close>, which is called before the
  \<^verbatim>\<open>try\<close>, is not swallowed: it leaves the method.
\<close>

theorem systemd_notify_once_counterexample:
  "map_of (environ \<lparr>environ = [(''NOTIFY_SOCKET'', '''')], datagrams = []\<rparr>) ''NOTIFY_SOCKET''
     = Some ''''
   \<and> systemd_notify_once
       \<lparr>socket_error = None, connect_error = (\<lambda>a. None), sendall_error = None\<rparr>
       \<lparr>environ = [(''NOTIFY_SOCKET'', '''')], datagrams = []\<rparr>
     = Inr \<lparr>environ = [(''NOTIFY_SOCKET'', '''')], datagrams = []\<rparr>
   \<and> systemd_notify_once
       \<lparr>socket_error = Some EMFILE, connect_error = (\<lambda>a. None), sendall_error = None\<rparr>
       \<lparr>environ = [(''NOTIFY_SOCKET'', ''/run/notify'')], datagrams = []\<rparr>
     = Inl (OSError EMFILE)"
  by (simp add: systemd_notify_once_def)

text \<open>
  C7, amended. If NOTIFY_SOCKET is unset or empty the notifier does nothing. If it is
  set to a non-empty value and the socket can be created, the notifier connects to that
  path, with a leading \<^verbatim>\<open>@\<close> replaced by a NUL byte, and sends \<^verbatim>\<open>READY=1\<close> as one datagram;
  when connect and send succeed the variable is unset, so that a later call does
  nothing, whatever the network does; when connect or send fails the error is
  swallowed, nothing is sent and the variable stays set.
\<close>

theorem systemd_notify_once_amended:
  "(map_of (environ w) ''NOTIFY_SOCKET'' = None \<or> map_of (environ w) ''NOTIFY_SOCKET'' = Some ''''
      \<longrightarrow> systemd_notify_once net w = Inr w) \<and>
   (map_of (environ w) ''NOTIFY_SOCKET'' = Some v \<and> v \<noteq> '''' \<and> socket_error net = None \<longrightarrow>
      (connect_error net (if take 1 v = ''@'' then CHR 0x00 # drop 1 v else v) = None
         \<and> sendall_error net = None \<longrightarrow>
         (\<exists>w'. systemd_notify_once net w = Inr w' \<and>
            datagrams w' = datagrams w
               @ [(if take 1 v = ''@'' then CHR 0x00 # drop 1 v else v, ''READY=1'')] \<and>
            map_of (environ w') ''NOTIFY_SOCKET'' = None \<and>
            systemd_notify_once net' w' = Inr w')) \<and>
      (connect_error net (if take 1 v = ''@'' then CHR 0x00 # drop 1 v else v) \<noteq> None
         \<or> sendall_error net \<noteq> None \<longrightarrow>
         systemd_notify_once net w = Inr w))"
  by (auto simp: systemd_notify_once_def map_of_delete_same Let_def split: option.splits)

text \<open>
  The theorem at an abstract-namespace address with a network that works, at a path
  whose connect is refused, and at an environment without the variable.
\<close>

theorem systemd_notify_once_amended_witness:
  "systemd_notify_once
       \<lparr>socket_error = None, connect_error = (\<lambda>a. None), sendall_error = None\<rparr>
       \<lparr>environ = [(''NOTIFY_SOCKET'', ''@notify'')], datagrams = []\<rparr>
     = Inr \<lparr>environ = [], datagrams = [(CHR 0x00 # ''notify'', ''READY=1'')]\<rparr>
   \<and> systemd_notify_once
       \<lparr>socket_error = None, connect_error = (\<lambda>a. Some ECONNREFUSED), sendall_error = None\<rparr>
       \<lparr>environ = [(''NOTIFY_SOCKET'', ''/run/notify'')], datagrams = []\<rparr>
     = Inr \<lparr>environ = [(''NOTIFY_SOCKET'', ''/run/notify'')], datagrams = []\<rparr>
   \<and> systemd_notify_once
       \<lparr>socket_error = None, connect_error = (\<lambda>a. None), sendall_error = None\<rparr>
       \<lparr>environ = [], datagrams = []\<rparr>
     = Inr \<lparr>environ = [], datagrams = []\<rparr>"
  using systemd_notify_once_amended
    [of "\<lparr>environ = [(''NOTIFY_SOCKET'', ''@notify'')], datagrams = []\<rparr>"
        "\<lparr>socket_error = None, connect_error = (\<lambda>a. None), sendall_error = None\<rparr>"
        "''@notify''"
        "\<lparr>socket_error = None, connect_error = (\<lambda>a. None), sendall_error = None\<rparr>"]
    systemd_notify_once_amended
    [of "\<lparr>environ = [(''NOTIFY_SOCKET'', ''/run/notify'')], datagrams = []\<rparr>"
        "\<lparr>socket_error = None, connect_error = (\<lambda>a. Some ECONNREFUSED), sendall_error = None\<rparr>"
        "''/run/notify''"
        "\<lparr>socket_error = None, connect_error = (\<lambda>a. None), sendall_error = None\<rparr>"]
    systemd_notify_once_amended
    [of "\<lparr>environ = [], datagrams = []\<rparr>"
        "\<lparr>socket_error = None, connect_error = (\<lambda>a. None), sendall_error = None\<rparr>"
        "''x''"
        "\<lparr>socket_error = None, connect_error = (\<lambda>a. None), sendall_error = None\<rparr>"]
  by (simp add: systemd_notify_once_def)

subsection \<open>C8: one supervisor per process\<close>

lemma ServiceManager_init_sets_flag:
  "ServiceManager_init p wi = (p', r) \<Longrightarrow> process_runner_already_created p'"
  by (auto simp: ServiceManager_init_def os_pipe_def set_nonblock_def signal_signal_def
      get_process_name_def Let_def split: if_splits sum.splits list.splits prod.splits)

lemma slowdown_flag:
  "slowdown_respawn_if_needed p m = Inr (p', m') \<Longrightarrow>
     process_runner_already_created p' = process_runner_already_created p"
  by (auto simp: slowdown_respawn_if_needed_def Let_def split: if_splits list.splits)

lemma start_worker_flag:
  "start_worker p m sid wid = Inr (p', m') \<Longrightarrow>
     process_runner_already_created p' = process_runner_already_created p"
  by (auto simp: start_worker_def os_fork_def dest!: slowdown_flag split: sum.splits prod.splits)

lemma start_workers_flag:
  "start_workers p m sid wids = Inr (p', m') \<Longrightarrow>
     process_runner_already_created p' = process_runner_already_created p"
  by (induction wids arbitrary: p m) (auto dest!: start_worker_flag split: sum.splits)

lemma stop_worker_items_flag:
  "process_runner_already_created (stop_worker_items items wid p) = process_runner_already_created p"
  by (induction items wid p rule: stop_worker_items.induct) (auto simp: os_kill_def)

lemma stop_worker_flag:
  "stop_worker p m sid wid = (p', m') \<Longrightarrow>
     process_runner_already_created p' = process_runner_already_created p"
  by (auto simp: stop_worker_def stop_worker_items_flag split: prod.splits)

lemma stop_workers_flag:
  "stop_workers p m sid wids = (p', m') \<Longrightarrow>
     process_runner_already_created p' = process_runner_already_created p"
  by (induction wids arbitrary: p m) (auto dest!: stop_worker_flag split: prod.splits)

lemma adjust_workers_items_flag:
  "adjust_workers_items items p m = Inr (p', m') \<Longrightarrow>
     process_runner_already_created p' = process_runner_already_created p"
proof (induction items arbitrary: p m)
  case Nil
  then show ?case by simp
next
  case (Cons a items)
  then show ?case
    by (cases a)
       (auto simp: Let_def dest!: start_workers_flag stop_workers_flag
          split: prod.splits sum.splits if_splits)
qed

lemma restart_dead_worker_flag:
  "restart_dead_worker p m dead = Inr (p', m') \<Longrightarrow>
     process_runner_already_created p' = process_runner_already_created p"
  by (auto simp: restart_dead_worker_def dest!: start_worker_flag split: option.splits prod.splits)

lemma restart_dead_workers_flag:
  "restart_dead_workers p m reaped = Inr (p', m') \<Longrightarrow>
     process_runner_already_created p' = process_runner_already_created p"
  by (induction reaped arbitrary: p m) (auto dest!: restart_dead_worker_flag split: sum.splits)

lemma on_wakeup_flag:
  "on_wakeup p m reaped = Inr (p', m') \<Longrightarrow>
     process_runner_already_created p' = process_runner_already_created p"
  by (auto simp: on_wakeup_def adjust_workers_def
      dest!: restart_dead_workers_flag adjust_workers_items_flag split: sum.splits)

lemma wait_forever_idle_flag:
  "wait_forever_idle p m wakeups = Inr (p', m') \<Longrightarrow>
     process_runner_already_created p' = process_runner_already_created p"
proof (induction wakeups arbitrary: p m)
  case Nil
  then show ?case by simp
next
  case (Cons a wakeups)
  obtain reaped dt where a: "a = (reaped, dt)" by (cases a)
  from Cons.prems a obtain p1 m1 where
    wake: "on_wakeup p m reaped = Inr (p1, m1)" and
    rest: "wait_forever_idle (select_wait p1 dt) m1 wakeups = Inr (p', m')"
    by (auto split: sum.splits)
  have "process_runner_already_created p'
      = process_runner_already_created (select_wait p1 dt)"
    by (rule Cons.IH [OF rest])
  also have "\<dots> = process_runner_already_created p1"
    by (simp add: select_wait_def)
  also have "\<dots> = process_runner_already_created p"
    by (rule on_wakeup_flag [OF wake])
  finally show ?case .
qed

text \<open>
  C8. After a construction that succeeds, a further construction in the same process
  raises \<^verbatim>\<open>RuntimeError\<close> and leaves the process as it was: no descriptor is taken, no
  handler installed, no title set, no object made. The same holds after any number of
  wake-ups of the supervisor loop and after a reload, since none of them clears the
  class attribute.
\<close>

theorem ServiceManager_is_a_singleton:
  "(ServiceManager_init p wi = (p', Inr m) \<longrightarrow>
      ServiceManager_init p' wi' =
        (p', Inl (RuntimeError ''Only one instance of ProcessRunner per application is allowed''))) \<and>
   (ServiceManager_init p wi = (p', Inr m) \<and> wait_forever_idle p' m1 wakeups = Inr (q, m2) \<longrightarrow>
      ServiceManager_init q wi' =
        (q, Inl (RuntimeError ''Only one instance of ProcessRunner per application is allowed''))) \<and>
   (ServiceManager_init p wi = (p', Inr m) \<longrightarrow>
      ServiceManager_init (fst (manager_reload p' m1)) wi' =
        (fst (manager_reload p' m1),
         Inl (RuntimeError ''Only one instance of ProcessRunner per application is allowed'')))"
proof -
  have fails: "ServiceManager_init q wi' =
      (q, Inl (RuntimeError ''Only one instance of ProcessRunner per application is allowed''))"
    if "process_runner_already_created q" for q
    using that by (simp add: ServiceManager_init_def)
  have reload: "process_runner_already_created (fst (manager_reload p' m1))"
    if "process_runner_already_created p'"
    using that by (simp add: manager_reload_def os_killpg_def Let_def)
  show ?thesis
    using fails reload ServiceManager_init_sets_flag [of p wi p' "Inr m"]
      wait_forever_idle_flag [of p' m1 wakeups q m2]
    by auto
qed

text \<open>
  The theorem at a fresh process started as \<^verbatim>\<open>/usr/bin/app -v\<close>: the first construction
  succeeds, the second fails and changes nothing.
\<close>

theorem ServiceManager_is_a_singleton_witness:
  "ServiceManager_init
     \<lparr>process_runner_already_created = False, handlers = (\<lambda>s. SIG_DFL), wakeup_fd = None,
      nonblocking = [], next_fd = 3, fd_limit = 1024, argv = [''/usr/bin/app'', ''-v''],
      proctitle = ''app'', group_leader = False, session_leader = False, clock = 0,
      last_pid = 100, forks = [], sent = [], group_sent = []\<rparr> (1 / 100)
   = (\<lparr>process_runner_already_created = True,
       handlers = (\<lambda>s. SIG_DFL)
         (SIGHUP := Handler_signal_catcher, SIGTERM := Handler_signal_catcher,
          SIGALRM := Handler_signal_catcher, SIGINT := Handler_fast_exit),
       wakeup_fd = Some 4, nonblocking = [4, 3], next_fd = 7, fd_limit = 1024,
       argv = [''/usr/bin/app'', ''-v''],
       proctitle = ''app: master process [/usr/bin/app -v]'',
       group_leader = True, session_leader = True, clock = 0,
       last_pid = 100, forks = [], sent = [], group_sent = []\<rparr>,
      Inr \<lparr>wakeup_interval = 1 / 100, signal_pipe_r = 3, signal_pipe_w = 4,
           signals_received = [], services = [], running_services = [], forktimes = [],
           current_process = None, readpipe = 5, writepipe = 6\<rparr>)
   \<and> ServiceManager_init
     \<lparr>process_runner_already_created = True,
       handlers = (\<lambda>s. SIG_DFL)
         (SIGHUP := Handler_signal_catcher, SIGTERM := Handler_signal_catcher,
          SIGALRM := Handler_signal_catcher, SIGINT := Handler_fast_exit),
       wakeup_fd = Some 4, nonblocking = [4, 3], next_fd = 7, fd_limit = 1024,
       argv = [''/usr/bin/app'', ''-v''],
       proctitle = ''app: master process [/usr/bin/app -v]'',
       group_leader = True, session_leader = True, clock = 0,
       last_pid = 100, forks = [], sent = [], group_sent = []\<rparr> (1 / 2)
   = (\<lparr>process_runner_already_created = True,
       handlers = (\<lambda>s. SIG_DFL)
         (SIGHUP := Handler_signal_catcher, SIGTERM := Handler_signal_catcher,
          SIGALRM := Handler_signal_catcher, SIGINT := Handler_fast_exit),
       wakeup_fd = Some 4, nonblocking = [4, 3], next_fd = 7, fd_limit = 1024,
       argv = [''/usr/bin/app'', ''-v''],
       proctitle = ''app: master process [/usr/bin/app -v]'',
       group_leader = True, session_leader = True, clock = 0,
       last_pid = 100, forks = [], sent = [], group_sent = []\<rparr>,
      Inl (RuntimeError ''Only one instance of ProcessRunner per application is allowed''))"
proof -
  let ?p0 = "\<lparr>process_runner_already_created = False, handlers = (\<lambda>s. SIG_DFL), wakeup_fd = None,
      nonblocking = [], next_fd = 3, fd_limit = 1024, argv = [''/usr/bin/app'', ''-v''],
      proctitle = ''app'', group_leader = False, session_leader = False, clock = 0,
      last_pid = 100, forks = [], sent = [], group_sent = []\<rparr>"
  let ?p1 = "\<lparr>process_runner_already_created = True,
       handlers = (\<lambda>s. SIG_DFL)
         (SIGHUP := Handler_signal_catcher, SIGTERM := Handler_signal_catcher,
          SIGALRM := Handler_signal_catcher, SIGINT := Handler_fast_exit),
       wakeup_fd = Some 4, nonblocking = [4, 3], next_fd = 7, fd_limit = 1024,
       argv = [''/usr/bin/app'', ''-v''],
       proctitle = ''app: master process [/usr/bin/app -v]'',
       group_leader = True, session_leader = True, clock = 0,
       last_pid = (100::nat), forks = [], sent = [], group_sent = []\<rparr>"
  let ?m1 = "\<lparr>wakeup_interval = 1 / 100, signal_pipe_r = 3, signal_pipe_w = 4,
           signals_received = [], services = [], running_services = [], forktimes = [],
           current_process = None, readpipe = 5, writepipe = 6\<rparr>"
  have first: "ServiceManager_init ?p0 (1 / 100) = (?p1, Inr ?m1)"
    by (simp add: ServiceManager_init_def os_pipe_def set_nonblock_def signal_signal_def
        get_process_name_def basename_def Let_def)
  show ?thesis
    using first ServiceManager_is_a_singleton [of ?p0 "1 / 100" ?p1 ?m1 "1 / 2"]
    by simp
qed

subsection \<open>C10: the default graceful shutdown timeout\<close>

text \<open>
  C10. A service whose class does not define \<^verbatim>\<open>graceful_shutdown_timeout\<close> reads 60 from
  \<^verbatim>\<open>Service\<close>, which is greater than 0, so on SIGTERM its child process first arms the
  alarm for 60 seconds and then spawns the thread that runs \<^verbatim>\<open>terminate()\<close>.
\<close>

theorem default_graceful_shutdown_timeout:
  "timeout_attribute (service_cls (child_service child)) = None \<Longrightarrow>
     graceful_shutdown_timeout (child_service child) = 60 \<and>
     child_on_signal_received SIGTERM child
       = Running (child\<lparr>effects := effects child @ [Alarm 60, Spawn Thread_terminate]\<rparr>)"
  by (simp add: graceful_shutdown_timeout_def
      Service_graceful_shutdown_timeout_def child_on_signal_received_def)

text \<open>
  The theorem at the child that \<open>child_main\<close> builds for worker 0 of a class that
  overrides nothing.
\<close>

theorem default_graceful_shutdown_timeout_witness:
  "child_main \<lparr>class_name = ''MyService'', name_attribute = None, timeout_attribute = None,
         init_body = Returns, run_body = None, terminate_body = None, reload_body = None\<rparr> 0 101
   = Inr \<lparr>child_service = \<lparr>service_cls = \<lparr>class_name = ''MyService'', name_attribute = None,
             timeout_attribute = None, init_body = Returns, run_body = None,
             terminate_body = None, reload_body = None\<rparr>,
            name = ''MyService'', worker_id = 0, pid = 101\<rparr>,
          child_signals_received = [],
          effects = [Spawn Thread_watch_parent, Spawn Thread_run]\<rparr>
   \<and> child_on_signal_received SIGTERM
       \<lparr>child_service = \<lparr>service_cls = \<lparr>class_name = ''MyService'', name_attribute = None,
             timeout_attribute = None, init_body = Returns, run_body = None,
             terminate_body = None, reload_body = None\<rparr>,
            name = ''MyService'', worker_id = 0, pid = 101\<rparr>,
          child_signals_received = [],
          effects = [Spawn Thread_watch_parent, Spawn Thread_run]\<rparr>
     = Running
       \<lparr>child_service = \<lparr>service_cls = \<lparr>class_name = ''MyService'', name_attribute = None,
             timeout_attribute = None, init_body = Returns, run_body = None,
             terminate_body = None, reload_body = None\<rparr>,
            name = ''MyService'', worker_id = 0, pid = 101\<rparr>,
          child_signals_received = [],
          effects = [Spawn Thread_watch_parent, Spawn Thread_run, Alarm 60,
                     Spawn Thread_terminate]\<rparr>"
  using default_graceful_shutdown_timeout
    [of "\<lparr>child_service = \<lparr>service_cls = \<lparr>class_name = ''MyService'', name_attribute = None,
             timeout_attribute = None, init_body = Returns, run_body = None,
             terminate_body = None, reload_body = None\<rparr>,
            name = ''MyService'', worker_id = 0, pid = 101\<rparr>,
          child_signals_received = [],
          effects = [Spawn Thread_watch_parent, Spawn Thread_run]\<rparr>"]
  by (simp add: child_main_def ChildProcess_init_def Service_initialize_def)

subsection \<open>C9: the running-worker table\<close>

lemma set_table_pids:
  "set (table_pids table) = {(sid, cpid). \<exists>inner. (sid, inner) \<in> set table \<and> cpid \<in> fst ` set inner}"
  by (force simp: table_pids_def)

lemma table_pids_Cons:
  "set (table_pids ((k, inner) # table)) = ({k} \<times> fst ` set inner) \<union> set (table_pids table)"
  by (auto simp: set_table_pids)

lemma table_pids_update_keeps:
  "set (table_pids table) \<subseteq>
     set (table_pids (AList.update k inner' table))
       \<union> {k} \<times> (case map_of table k of None \<Rightarrow> {} | Some inner \<Rightarrow> fst ` set inner - fst ` set inner')"
proof (induction table)
  case Nil
  then show ?case by (simp add: table_pids_def)
next
  case (Cons a table)
  obtain k' i' where a: "a = (k', i')" by (cases a)
  show ?case
  proof (cases "k' = k")
    case True
    then show ?thesis using a by (auto simp: table_pids_Cons)
  next
    case False
    then show ?thesis using a Cons.IH by (auto simp: table_pids_Cons)
  qed
qed

lemma table_pids_snoc_empty: "set (table_pids (table @ [(k, [])])) = set (table_pids table)"
  by (simp add: table_pids_def)

lemma defaultdict_getitem_pids:
  "defaultdict_getitem table k = (inner, d) \<Longrightarrow>
     set (table_pids d) = set (table_pids table) \<and> map_of d k = Some inner"
  by (auto simp: defaultdict_getitem_def table_pids_snoc_empty map_add_def
      split: option.splits)

lemma defaultdict_getitem_lookup:
  "fst (defaultdict_getitem (snd (defaultdict_getitem table k)) k')
     = fst (defaultdict_getitem table k')"
  by (auto simp: defaultdict_getitem_def map_add_def split: option.splits if_splits)

lemma defaultdict_getitem_present:
  "k \<in> fst ` set table \<Longrightarrow> snd (defaultdict_getitem table k) = table"
  by (auto simp: defaultdict_getitem_def map_of_eq_None_iff split: option.splits)

lemma slowdown_running:
  "slowdown_respawn_if_needed p m = Inr (p', m') \<Longrightarrow> running_services m' = running_services m"
  by (auto simp: slowdown_respawn_if_needed_def Let_def split: if_splits list.splits)

lemma start_worker_keeps:
  assumes "start_worker p m sid wid = Inr (p', m')"
  shows "set (tracked m) \<subseteq> set (tracked m')"
proof -
  from assms obtain p1 m1 inner d where
    slow: "slowdown_respawn_if_needed p m = Inr (p1, m1)" and
    get: "defaultdict_getitem (running_services m1) sid = (inner, d)" and
    m': "running_services m' = AList.update sid (AList.update (Suc (last_pid p1)) wid inner) d"
    by (auto simp: start_worker_def os_fork_def dict_setitem_def split: sum.splits prod.splits)
  have "set (table_pids (running_services m)) = set (table_pids d)"
    using slowdown_running [OF slow] defaultdict_getitem_pids [OF get] by simp
  also have "\<dots> \<subseteq> set (table_pids (AList.update sid (AList.update (Suc (last_pid p1)) wid inner) d))"
    using table_pids_update_keeps [of d sid "AList.update (Suc (last_pid p1)) wid inner"]
      defaultdict_getitem_pids [OF get]
    by (auto simp: AList.dom_update)
  finally show ?thesis by (simp add: tracked_def m')
qed

lemma start_workers_keeps:
  "start_workers p m sid wids = Inr (p', m') \<Longrightarrow> set (tracked m) \<subseteq> set (tracked m')"
proof (induction wids arbitrary: p m)
  case Nil
  then show ?case by simp
next
  case (Cons wid wids)
  from Cons.prems obtain p1 m1 where
    one: "start_worker p m sid wid = Inr (p1, m1)" and
    rest: "start_workers p1 m1 sid wids = Inr (p', m')"
    by (auto split: sum.splits)
  show ?case using start_worker_keeps [OF one] Cons.IH [OF rest] by blast
qed

lemma stop_worker_tracked:
  assumes "stop_worker p m sid wid = (p', m')"
  shows "set (tracked m') = set (tracked m)"
proof -
  obtain inner d where get: "defaultdict_getitem (running_services m) sid = (inner, d)"
    by (cases "defaultdict_getitem (running_services m) sid")
  with assms have "running_services m' = d"
    by (auto simp: stop_worker_def)
  with defaultdict_getitem_pids [OF get] show ?thesis
    by (simp add: tracked_def)
qed

lemma stop_workers_tracked:
  "stop_workers p m sid wids = (p', m') \<Longrightarrow> set (tracked m') = set (tracked m)"
proof (induction wids arbitrary: p m)
  case Nil
  then show ?case by simp
next
  case (Cons wid wids)
  from Cons.prems obtain p1 m1 where
    one: "stop_worker p m sid wid = (p1, m1)" and
    rest: "stop_workers p1 m1 sid wids = (p', m')"
    by (auto split: prod.splits)
  show ?case using stop_worker_tracked [OF one] Cons.IH [OF rest] by simp
qed

lemma adjust_workers_items_keeps:
  "adjust_workers_items items p m = Inr (p', m') \<Longrightarrow> set (tracked m) \<subseteq> set (tracked m')"
proof (induction items arbitrary: p m)
  case Nil
  then show ?case by simp
next
  case (Cons a items)
  obtain sid conf where a: "a = (sid, conf)" by (cases a)
  obtain inner d where get: "defaultdict_getitem (running_services m) sid = (inner, d)"
    by (cases "defaultdict_getitem (running_services m) sid")
  let ?m0 = "m\<lparr>running_services := d\<rparr>"
  have m0: "set (tracked ?m0) = set (tracked m)"
    using defaultdict_getitem_pids [OF get] by (simp add: tracked_def)
  consider (start) "int (length inner) < workers conf"
    | (stop) "\<not> int (length inner) < workers conf" "int (length inner) > workers conf"
    | (same) "\<not> int (length inner) < workers conf" "\<not> int (length inner) > workers conf"
    by blast
  then show ?case
  proof cases
    case start
    with Cons.prems a get obtain p1 m1 where
      one: "start_workers p ?m0 sid (py_range (int (length inner)) (workers conf)) = Inr (p1, m1)"
      and rest: "adjust_workers_items items p1 m1 = Inr (p', m')"
      by (auto simp: Let_def split: sum.splits)
    show ?thesis using start_workers_keeps [OF one] Cons.IH [OF rest] m0 by blast
  next
    case stop
    with Cons.prems a get obtain p1 m1 where
      one: "stop_workers p ?m0 sid (py_range (int (length inner)) (workers conf)) = (p1, m1)"
      and rest: "adjust_workers_items items p1 m1 = Inr (p', m')"
      by (auto simp: Let_def split: prod.splits)
    show ?thesis using stop_workers_tracked [OF one] Cons.IH [OF rest] m0 by blast
  next
    case same
    with Cons.prems a get have rest: "adjust_workers_items items p ?m0 = Inr (p', m')"
      by (auto simp: Let_def)
    show ?thesis using Cons.IH [OF rest] m0 by blast
  qed
qed

lemma restart_dead_worker_keeps:
  assumes "restart_dead_worker p m dead = Inr (p', m')"
  shows "set (tracked m) \<subseteq> set (tracked m') \<union> UNIV \<times> {dead}"
proof (cases "find_pid (running_services m) dead")
  case None
  with assms show ?thesis by (auto simp: restart_dead_worker_def)
next
  case (Some a)
  obtain sid wid where a: "a = (sid, wid)" by (cases a)
  obtain inner d where get: "defaultdict_getitem (running_services m) sid = (inner, d)"
    by (cases "defaultdict_getitem (running_services m) sid")
  let ?m1 = "m\<lparr>running_services := AList.update sid (AList.delete dead inner) d\<rparr>"
  from assms Some a get have start: "start_worker p ?m1 sid wid = Inr (p', m')"
    by (simp add: restart_dead_worker_def dict_setitem_def dict_delitem_def)
  have "set (table_pids (running_services m)) = set (table_pids d)"
    using defaultdict_getitem_pids [OF get] by simp
  also have "\<dots> \<subseteq> set (table_pids (AList.update sid (AList.delete dead inner) d))
      \<union> {sid} \<times> (fst ` set inner - fst ` set (AList.delete dead inner))"
    using table_pids_update_keeps [of d sid "AList.delete dead inner"]
      defaultdict_getitem_pids [OF get] by simp
  also have "\<dots> \<subseteq> set (tracked ?m1) \<union> UNIV \<times> {dead}"
    by (auto simp: tracked_def AList.delete_eq)
  finally show ?thesis using start_worker_keeps [OF start] by (auto simp: tracked_def)
qed

lemma restart_dead_workers_keeps:
  "restart_dead_workers p m reaped = Inr (p', m') \<Longrightarrow>
     set (tracked m) \<subseteq> set (tracked m') \<union> UNIV \<times> set reaped"
proof (induction reaped arbitrary: p m)
  case Nil
  then show ?case by simp
next
  case (Cons dead reaped)
  from Cons.prems obtain p1 m1 where
    one: "restart_dead_worker p m dead = Inr (p1, m1)" and
    rest: "restart_dead_workers p1 m1 reaped = Inr (p', m')"
    by (auto split: sum.splits)
  show ?case using restart_dead_worker_keeps [OF one] Cons.IH [OF rest] by auto
qed

lemma on_wakeup_keeps:
  assumes "on_wakeup p m reaped = Inr (p', m')"
  shows "set (tracked m) \<subseteq> set (tracked m') \<union> UNIV \<times> set reaped"
proof -
  from assms obtain p1 m1 where
    one: "restart_dead_workers p m reaped = Inr (p1, m1)" and
    rest: "adjust_workers_items (services m1) p1 m1 = Inr (p', m')"
    by (auto simp: on_wakeup_def adjust_workers_def split: sum.splits)
  show ?thesis using restart_dead_workers_keeps [OF one] adjust_workers_items_keeps [OF rest]
    by auto
qed

lemma stop_worker_items_sent:
  "stop_worker_items items wid p
     = p\<lparr>sent := sent p @ map (\<lambda>(cpid, i). (cpid, SIGTERM)) (filter (\<lambda>(cpid, i). i = wid) items)\<rparr>"
  by (induction items wid p rule: stop_worker_items.induct) (auto simp: os_kill_def)

lemma table_pid_list_simps [simp]:
  "table_pid_list [] = []"
  "table_pid_list ((k, inner) # table) = map fst inner @ table_pid_list table"
  "table_pid_list (xs @ ys) = table_pid_list xs @ table_pid_list ys"
  by (simp_all add: table_pid_list_def)

lemma map_of_split:
  "map_of d k = Some v \<Longrightarrow> \<exists>xs ys. d = xs @ (k, v) # ys \<and> k \<notin> fst ` set xs"
proof (induction d)
  case Nil
  then show ?case by simp
next
  case (Cons a d)
  obtain k' v' where a: "a = (k', v')" by (cases a)
  show ?case
  proof (cases "k' = k")
    case True
    with Cons.prems a have "a # d = [] @ (k, v) # d" by simp
    then show ?thesis by force
  next
    case False
    with Cons.prems a have "map_of d k = Some v" by simp
    from Cons.IH [OF this] obtain xs ys where "d = xs @ (k, v) # ys" "k \<notin> fst ` set xs"
      by blast
    with False a have "a # d = (a # xs) @ (k, v) # ys \<and> k \<notin> fst ` set (a # xs)"
      by auto
    then show ?thesis by blast
  qed
qed

lemma update_split:
  "k \<notin> fst ` set xs \<Longrightarrow> AList.update k v (xs @ (k, v0) # ys) = xs @ (k, v) # ys"
  by (induction xs) auto

lemma map_of_split_notin:
  "k \<notin> fst ` set xs \<Longrightarrow> map_of (xs @ (k, v) # ys) k = Some v"
  by (induction xs) auto

lemma find_pid_Some:
  "find_pid table dead = Some (sid, wid) \<Longrightarrow>
     \<exists>xs inner ys. table = xs @ (sid, inner) # ys \<and> map_of inner dead = Some wid"
proof (induction table)
  case Nil
  then show ?case by simp
next
  case (Cons a table)
  obtain k inner where a: "a = (k, inner)" by (cases a)
  show ?case
  proof (cases "map_of inner dead")
    case None
    with Cons.prems a have "find_pid table dead = Some (sid, wid)" by simp
    from Cons.IH [OF this] obtain xs i ys where
      "table = xs @ (sid, i) # ys" "map_of i dead = Some wid" by blast
    then have "a # table = (a # xs) @ (sid, i) # ys \<and> map_of i dead = Some wid" by simp
    then show ?thesis by blast
  next
    case (Some w)
    with Cons.prems a have "a # table = [] @ (sid, inner) # table \<and> map_of inner dead = Some wid"
      by simp
    then show ?thesis by blast
  qed
qed

lemma find_pid_None:
  "find_pid table dead = None \<Longrightarrow> dead \<notin> set (table_pid_list table)"
proof (induction table)
  case Nil
  then show ?case by simp
next
  case (Cons a table)
  obtain k inner where a: "a = (k, inner)" by (cases a)
  from Cons.prems a have none: "map_of inner dead = None" and rest: "find_pid table dead = None"
    by (auto split: option.splits)
  from none have "dead \<notin> fst ` set inner" by (simp add: map_of_eq_None_iff)
  with Cons.IH [OF rest] a show ?case by simp
qed

lemma defaultdict_getitem_split:
  assumes "defaultdict_getitem table k = (inner, d)"
  shows "\<exists>xs ys. d = xs @ (k, inner) # ys \<and> k \<notin> fst ` set xs"
    and "table_pid_list d = table_pid_list table"
    and "distinct (map fst table) \<Longrightarrow> distinct (map fst d)"
proof -
  show "\<exists>xs ys. d = xs @ (k, inner) # ys \<and> k \<notin> fst ` set xs"
  proof (cases "map_of table k")
    case None
    with assms have "d = table @ (k, inner) # []" and "k \<notin> fst ` set table"
      by (auto simp: defaultdict_getitem_def map_of_eq_None_iff)
    then show ?thesis by blast
  next
    case (Some v)
    with assms have "d = table" "v = inner" by (auto simp: defaultdict_getitem_def)
    with Some map_of_split [of table k inner] show ?thesis by simp
  qed
  show "table_pid_list d = table_pid_list table"
    using assms by (auto simp: defaultdict_getitem_def split: option.splits)
  show "distinct (map fst d)" if "distinct (map fst table)"
    using assms that
    by (auto simp: defaultdict_getitem_def map_of_eq_None_iff split: option.splits)
qed

lemma slowdown_frame:
  assumes "slowdown_respawn_if_needed p m = Inr (p1, m1)"
  shows "last_pid p1 = last_pid p" and "forks p1 = forks p"
    and "running_services m1 = running_services m" and "services m1 = services m"
  using assms
  by (auto simp: slowdown_respawn_if_needed_def Let_def split: if_splits list.splits)

lemma start_worker_effect:
  assumes sw: "start_worker p m sid wid = Inr (p', m')"
    and fresh: "Suc (last_pid p) \<notin> set (running_pids m)"
  shows "last_pid p' = Suc (last_pid p)"
    and "map snd (forks p') = map snd (forks p) @ [Suc (last_pid p)]"
    and "set (running_pids m') = insert (Suc (last_pid p)) (set (running_pids m))"
    and "distinct (running_pids m) \<Longrightarrow> distinct (running_pids m')"
    and "distinct (map fst (running_services m)) \<Longrightarrow> distinct (map fst (running_services m'))"
    and "services m' = services m"
proof -
  let ?new = "Suc (last_pid p)"
  from sw obtain p1 m1 inner d where
    slow: "slowdown_respawn_if_needed p m = Inr (p1, m1)" and
    get: "defaultdict_getitem (running_services m1) sid = (inner, d)" and
    p': "p' = p1\<lparr>last_pid := Suc (last_pid p1),
                 forks := forks p1 @ [(clock p1, Suc (last_pid p1))]\<rparr>" and
    m': "m' = m1\<lparr>running_services :=
                  AList.update sid (AList.update (Suc (last_pid p1)) wid inner) d\<rparr>"
    by (auto simp: start_worker_def os_fork_def dict_setitem_def split: sum.splits prod.splits)
  note fr = slowdown_frame [OF slow]
  from defaultdict_getitem_split(1) [OF get] obtain xs ys where
    d: "d = xs @ (sid, inner) # ys" and notin: "sid \<notin> fst ` set xs" by blast
  have pids_d: "table_pid_list d = running_pids m"
    using defaultdict_getitem_split(2) [OF get] fr by (simp add: running_pids_def)
  have tbl: "running_services m' = xs @ (sid, AList.update ?new wid inner) # ys"
    using m' d notin fr by (simp add: update_split)
  have pids: "running_pids m = table_pid_list xs @ map fst inner @ table_pid_list ys"
    using pids_d d by simp
  with fresh have new_inner: "?new \<notin> set (map fst inner)" by simp
  then have keys: "map fst (AList.update ?new wid inner) = map fst inner @ [?new]"
    by (simp add: AList.update_keys)
  have pids': "running_pids m'
      = table_pid_list xs @ (map fst inner @ [?new]) @ table_pid_list ys"
    using tbl keys by (simp add: running_pids_def)
  show "last_pid p' = Suc (last_pid p)" using p' fr by simp
  show "map snd (forks p') = map snd (forks p) @ [Suc (last_pid p)]" using p' fr by simp
  show "set (running_pids m') = insert ?new (set (running_pids m))"
    using pids pids' by auto
  show "distinct (running_pids m')" if "distinct (running_pids m)"
    using that fresh pids pids' by auto
  show "distinct (map fst (running_services m'))" if "distinct (map fst (running_services m))"
  proof -
    have "distinct (map fst d)"
      using defaultdict_getitem_split(3) [OF get] that fr by simp
    then show ?thesis using tbl d by simp
  qed
  show "services m' = services m" using m' fr by simp
qed

lemma reflects_fresh:
  assumes "reflects p m reaped"
  shows "Suc (last_pid p) \<notin> set (running_pids m)"
proof
  assume "Suc (last_pid p) \<in> set (running_pids m)"
  with assms have "Suc (last_pid p) \<in> set (map snd (forks p))"
    by (auto simp: reflects_def)
  with assms have "Suc (last_pid p) \<le> last_pid p"
    by (auto simp: reflects_def list_all_iff)
  then show False by simp
qed

lemma reflects_start_worker:
  assumes inv: "reflects p m reaped" and sw: "start_worker p m sid wid = Inr (p', m')"
  shows "reflects p' m' reaped \<and> last_pid p \<le> last_pid p'"
proof -
  note eff = start_worker_effect [OF sw reflects_fresh [OF inv]]
  have new_reaped: "Suc (last_pid p) \<notin> set reaped"
    using inv by (auto simp: reflects_def list_all_iff)
  have "set (running_pids m') = set (map snd (forks p')) - set reaped"
    using inv eff(2,3) new_reaped by (auto simp: reflects_def)
  moreover have "distinct (running_pids m')" "distinct (map fst (running_services m'))"
    using inv eff(4,5) by (simp_all add: reflects_def)
  moreover have "list_all (\<lambda>c. c \<le> last_pid p') (map snd (forks p'))"
    using inv eff(1,2) by (auto simp: reflects_def list_all_iff)
  moreover have "list_all (\<lambda>c. c \<le> last_pid p') reaped"
    using inv eff(1) by (auto simp: reflects_def list_all_iff)
  ultimately show ?thesis using eff(1) by (simp add: reflects_def)
qed

lemma reflects_start_workers:
  "reflects p m reaped \<Longrightarrow> start_workers p m sid wids = Inr (p', m') \<Longrightarrow>
     reflects p' m' reaped \<and> last_pid p \<le> last_pid p'"
proof (induction wids arbitrary: p m)
  case Nil
  then show ?case by simp
next
  case (Cons wid wids)
  from Cons.prems(2) obtain p1 m1 where
    one: "start_worker p m sid wid = Inr (p1, m1)" and
    rest: "start_workers p1 m1 sid wids = Inr (p', m')"
    by (auto split: sum.splits)
  from reflects_start_worker [OF Cons.prems(1) one]
  have "reflects p1 m1 reaped" and le: "last_pid p \<le> last_pid p1" by simp_all
  from Cons.IH [OF this(1) rest] le show ?case by simp
qed

lemma stop_worker_frame:
  assumes "stop_worker p m sid wid = (p', m')"
  shows "last_pid p' = last_pid p" and "forks p' = forks p"
    and "running_pids m' = running_pids m"
    and "distinct (map fst (running_services m)) \<Longrightarrow> distinct (map fst (running_services m'))"
proof -
  obtain inner d where get: "defaultdict_getitem (running_services m) sid = (inner, d)"
    by (cases "defaultdict_getitem (running_services m) sid")
  with assms have p': "p' = stop_worker_items inner wid p" and m': "running_services m' = d"
    by (auto simp: stop_worker_def)
  show "last_pid p' = last_pid p" "forks p' = forks p"
    using p' by (simp_all add: stop_worker_items_sent)
  show "running_pids m' = running_pids m"
    using m' defaultdict_getitem_split(2) [OF get] by (simp add: running_pids_def)
  show "distinct (map fst (running_services m'))" if "distinct (map fst (running_services m))"
    using m' defaultdict_getitem_split(3) [OF get] that by simp
qed

lemma reflects_stop_worker:
  assumes "reflects p m reaped" and "stop_worker p m sid wid = (p', m')"
  shows "reflects p' m' reaped \<and> last_pid p \<le> last_pid p'"
  using assms(1) stop_worker_frame [OF assms(2)] by (simp add: reflects_def)

lemma reflects_stop_workers:
  "reflects p m reaped \<Longrightarrow> stop_workers p m sid wids = (p', m') \<Longrightarrow>
     reflects p' m' reaped \<and> last_pid p \<le> last_pid p'"
proof (induction wids arbitrary: p m)
  case Nil
  then show ?case by simp
next
  case (Cons wid wids)
  from Cons.prems(2) obtain p1 m1 where
    one: "stop_worker p m sid wid = (p1, m1)" and
    rest: "stop_workers p1 m1 sid wids = (p', m')"
    by (auto split: prod.splits)
  from reflects_stop_worker [OF Cons.prems(1) one]
  have "reflects p1 m1 reaped" and le: "last_pid p \<le> last_pid p1" by simp_all
  from Cons.IH [OF this(1) rest] le show ?case by simp
qed

lemma reflects_adjust_workers_items:
  "reflects p m reaped \<Longrightarrow> adjust_workers_items items p m = Inr (p', m') \<Longrightarrow>
     reflects p' m' reaped \<and> last_pid p \<le> last_pid p'"
proof (induction items arbitrary: p m)
  case Nil
  then show ?case by simp
next
  case (Cons a items)
  obtain sid conf where a: "a = (sid, conf)" by (cases a)
  obtain inner d where get: "defaultdict_getitem (running_services m) sid = (inner, d)"
    by (cases "defaultdict_getitem (running_services m) sid")
  let ?m0 = "m\<lparr>running_services := d\<rparr>"
  have m0: "reflects p ?m0 reaped"
    using Cons.prems(1) defaultdict_getitem_split(2,3) [OF get]
    by (simp add: reflects_def running_pids_def)
  consider (start) "int (length inner) < workers conf"
    | (stop) "\<not> int (length inner) < workers conf" "int (length inner) > workers conf"
    | (same) "\<not> int (length inner) < workers conf" "\<not> int (length inner) > workers conf"
    by blast
  then show ?case
  proof cases
    case start
    with Cons.prems(2) a get obtain p1 m1 where
      one: "start_workers p ?m0 sid (py_range (int (length inner)) (workers conf)) = Inr (p1, m1)"
      and rest: "adjust_workers_items items p1 m1 = Inr (p', m')"
      by (auto simp: Let_def split: sum.splits)
    from reflects_start_workers [OF m0 one]
    have "reflects p1 m1 reaped" and le: "last_pid p \<le> last_pid p1" by simp_all
    from Cons.IH [OF this(1) rest] le show ?thesis by simp
  next
    case stop
    with Cons.prems(2) a get obtain p1 m1 where
      one: "stop_workers p ?m0 sid (py_range (int (length inner)) (workers conf)) = (p1, m1)"
      and rest: "adjust_workers_items items p1 m1 = Inr (p', m')"
      by (auto simp: Let_def split: prod.splits)
    from reflects_stop_workers [OF m0 one]
    have "reflects p1 m1 reaped" and le: "last_pid p \<le> last_pid p1" by simp_all
    from Cons.IH [OF this(1) rest] le show ?thesis by simp
  next
    case same
    with Cons.prems(2) a get have rest: "adjust_workers_items items p ?m0 = Inr (p', m')"
      by (auto simp: Let_def)
    from Cons.IH [OF m0 rest] show ?thesis .
  qed
qed

lemma reflects_restart_dead_worker:
  assumes inv: "reflects p m reaped" and dead: "dead \<le> last_pid p"
    and rs: "restart_dead_worker p m dead = Inr (p', m')"
  shows "reflects p' m' (reaped @ [dead]) \<and> last_pid p \<le> last_pid p'"
proof (cases "find_pid (running_services m) dead")
  case None
  with rs have same: "p' = p" "m' = m" by (auto simp: restart_dead_worker_def)
  from find_pid_None [OF None] have "dead \<notin> set (running_pids m)"
    by (simp add: running_pids_def)
  with inv dead same show ?thesis by (auto simp: reflects_def)
next
  case (Some a)
  obtain sid wid where a: "a = (sid, wid)" by (cases a)
  from find_pid_Some [OF Some [unfolded a]] obtain xs inner ys where
    tbl: "running_services m = xs @ (sid, inner) # ys" and wid: "map_of inner dead = Some wid"
    by blast
  from inv have dk: "distinct (map fst (running_services m))"
    and dp: "distinct (running_pids m)" by (simp_all add: reflects_def)
  from dk tbl have notin: "sid \<notin> fst ` set xs" by auto
  then have "map_of (running_services m) sid = Some inner"
    unfolding tbl by (rule map_of_split_notin)
  then have get: "defaultdict_getitem (running_services m) sid = (inner, running_services m)"
    by (simp add: defaultdict_getitem_def)
  let ?m1 = "m\<lparr>running_services := xs @ (sid, AList.delete dead inner) # ys\<rparr>"
  from rs Some a get tbl notin have start: "start_worker p ?m1 sid wid = Inr (p', m')"
    by (simp add: restart_dead_worker_def dict_setitem_def dict_delitem_def update_split)
  have pids: "running_pids m = table_pid_list xs @ map fst inner @ table_pid_list ys"
    using tbl by (simp add: running_pids_def)
  have pids1: "running_pids ?m1
      = table_pid_list xs @ removeAll dead (map fst inner) @ table_pid_list ys"
    by (simp add: running_pids_def AList.delete_keys)
  from wid have in_inner: "dead \<in> set (map fst inner)"
    by (metis map_of_eq_None_iff option.distinct(1) set_map)
  with dp pids have out: "dead \<notin> set (table_pid_list xs)" "dead \<notin> set (table_pid_list ys)"
    by auto
  have set1: "set (running_pids ?m1) = set (running_pids m) - {dead}"
    using pids pids1 out by auto
  have dist1: "distinct (running_pids ?m1)"
    using dp pids pids1 by (auto simp: distinct_removeAll)
  have keys1: "distinct (map fst (running_services ?m1))"
    using dk tbl by simp
  have "reflects p ?m1 (reaped @ [dead])"
    using inv dead set1 dist1 keys1 by (auto simp: reflects_def)
  from reflects_start_worker [OF this start] show ?thesis .
qed

lemma reflects_restart_dead_workers:
  "reflects p m reaped \<Longrightarrow> handed_out p m dead \<Longrightarrow>
     restart_dead_workers p m dead = Inr (p', m') \<Longrightarrow>
     reflects p' m' (reaped @ dead) \<and> last_pid p \<le> last_pid p'"
proof (induction dead arbitrary: p m reaped)
  case Nil
  then show ?case by simp
next
  case (Cons c dead)
  from Cons.prems(3) obtain p1 m1 where
    one: "restart_dead_worker p m c = Inr (p1, m1)" and
    rest: "restart_dead_workers p1 m1 dead = Inr (p', m')"
    by (auto split: sum.splits)
  from Cons.prems(2) one have c: "c \<le> last_pid p" and later: "handed_out p1 m1 dead"
    by simp_all
  from reflects_restart_dead_worker [OF Cons.prems(1) c one]
  have inv1: "reflects p1 m1 (reaped @ [c])" and le: "last_pid p \<le> last_pid p1" by simp_all
  from Cons.IH [OF inv1 later rest] le show ?case by simp
qed

lemma reflects_on_wakeup:
  assumes "reflects p m reaped" and "handed_out p m dead"
    and "on_wakeup p m dead = Inr (p', m')"
  shows "reflects p' m' (reaped @ dead)"
proof -
  from assms(3) obtain p1 m1 where
    one: "restart_dead_workers p m dead = Inr (p1, m1)" and
    rest: "adjust_workers_items (services m1) p1 m1 = Inr (p', m')"
    by (auto simp: on_wakeup_def adjust_workers_def split: sum.splits)
  from reflects_restart_dead_workers [OF assms(1,2) one]
  have "reflects p1 m1 (reaped @ dead)" by simp
  from reflects_adjust_workers_items [OF this rest] show ?thesis by simp
qed

lemma reflects_init:
  "ServiceManager_init p wi = (p', Inr m) \<Longrightarrow> forks p = [] \<Longrightarrow> reflects p' m []"
  by (auto simp: ServiceManager_init_def os_pipe_def set_nonblock_def signal_signal_def
      get_process_name_def Let_def reflects_def running_pids_def
      split: if_splits sum.splits list.splits prod.splits)

lemma table_pids_snoc_empty_list: "table_pids (table @ [(k, [])]) = table_pids table"
  by (simp add: table_pids_def)

lemma stop_worker_result:
  assumes "stop_worker p m sid wid = (p', m')"
  shows "m' = m\<lparr>running_services := running_services m'\<rparr>"
    and "fst (defaultdict_getitem (running_services m') k)
           = fst (defaultdict_getitem (running_services m) k)"
    and "sid \<in> fst ` set (running_services m) \<Longrightarrow> m' = m"
    and "sid \<notin> fst ` set (running_services m) \<Longrightarrow>
           running_services m' = running_services m @ [(sid, [])]"
    and "tracked m' = tracked m"
    and "p' = p\<lparr>sent := sent p @ map (\<lambda>(cpid, i). (cpid, SIGTERM))
                 (filter (\<lambda>(cpid, i). i = wid)
                    (fst (defaultdict_getitem (running_services m) sid)))\<rparr>"
proof -
  obtain inner d where get: "defaultdict_getitem (running_services m) sid = (inner, d)"
    by (cases "defaultdict_getitem (running_services m) sid")
  with assms have p': "p' = stop_worker_items inner wid p" and m': "m' = m\<lparr>running_services := d\<rparr>"
    by (auto simp: stop_worker_def)
  from get have d: "d = snd (defaultdict_getitem (running_services m) sid)" by simp
  show "m' = m\<lparr>running_services := running_services m'\<rparr>" using m' by simp
  show "fst (defaultdict_getitem (running_services m') k)
           = fst (defaultdict_getitem (running_services m) k)"
    using m' d defaultdict_getitem_lookup by simp
  show "m' = m" if "sid \<in> fst ` set (running_services m)"
    using m' d defaultdict_getitem_present [OF that] by simp
  show "running_services m' = running_services m @ [(sid, [])]"
    if "sid \<notin> fst ` set (running_services m)"
  proof -
    from that have "map_of (running_services m) sid = None"
      by (simp add: map_of_eq_None_iff)
    with get have "d = running_services m @ [(sid, [])]"
      by (simp add: defaultdict_getitem_def)
    with m' show ?thesis by simp
  qed
  show "tracked m' = tracked m"
    using m' get
    by (auto simp: tracked_def defaultdict_getitem_def table_pids_snoc_empty_list
        split: option.splits)
  show "p' = p\<lparr>sent := sent p @ map (\<lambda>(cpid, i). (cpid, SIGTERM))
                 (filter (\<lambda>(cpid, i). i = wid)
                    (fst (defaultdict_getitem (running_services m) sid)))\<rparr>"
    using p' get by (simp add: stop_worker_items_sent)
qed

lemma reflects_other_operations:
  assumes "reflects p m reaped"
  shows "reflects p (snd (reconfigure m sid w)) reaped"
    and "reflects p (snd (add m u srv w a kw)) reaped"
    and "reflects (select_wait p dt) m reaped"
    and "reflects (fst (manager_reload p m)) (snd (manager_reload p m)) reaped"
  using assms
  by (auto simp: reflects_def running_pids_def reconfigure_def add_def select_wait_def
      manager_reload_def os_killpg_def Let_def split: sum.splits py_exception.splits)

lemma defaultdict_getitem_has_key:
  assumes "defaultdict_getitem table sid = (inner, d)"
  shows "sid \<in> fst ` set d"
proof -
  from defaultdict_getitem_split(1) [OF assms] obtain xs ys where
    "d = xs @ (sid, inner) # ys" by blast
  then show ?thesis by force
qed

lemma stop_workers_present:
  "sid \<in> fst ` set (running_services m) \<Longrightarrow> stop_workers p m sid wids = (p', m') \<Longrightarrow> m' = m"
proof (induction wids arbitrary: p)
  case Nil
  then show ?case by simp
next
  case (Cons wid wids)
  from Cons.prems(2) obtain p1 m1 where
    one: "stop_worker p m sid wid = (p1, m1)" and
    rest: "stop_workers p1 m1 sid wids = (p', m')"
    by (auto split: prod.splits)
  from stop_worker_result(3) [OF one Cons.prems(1)] have "m1 = m" .
  with Cons.IH [OF Cons.prems(1)] rest show ?case by simp
qed

lemma shutdown_wait_result:
  "shutdown_wait waitpid_error pids waited = (w, r) \<Longrightarrow>
     set w \<subseteq> set waited \<union> set pids \<and>
     (r = None \<longrightarrow> w = waited @ filter (\<lambda>c. waitpid_error c = None) pids)"
proof (induction pids arbitrary: waited)
  case Nil
  then show ?case by auto
next
  case (Cons c pids)
  show ?case
  proof (cases "waitpid_error c")
    case None
    with Cons.prems have "shutdown_wait waitpid_error pids (waited @ [c]) = (w, r)" by simp
    from Cons.IH [OF this] None show ?thesis by auto
  next
    case (Some e)
    show ?thesis
    proof (cases "e = ECHILD")
      case True
      with Some Cons.prems have "shutdown_wait waitpid_error pids waited = (w, r)" by simp
      from Cons.IH [OF this] Some show ?thesis by auto
    next
      case False
      with Some Cons.prems show ?thesis by auto
    qed
  qed
qed

lemma manager_shutdown_result:
  assumes "manager_shutdown waitpid_error p m = (p', m', waited, r)"
  shows "m' = m" and "set waited \<subseteq> set (running_pids m)"
    and "r = Inr 0 \<Longrightarrow> waited = filter (\<lambda>c. waitpid_error c = None) (running_pids m)"
proof -
  obtain w e where sw: "shutdown_wait waitpid_error (running_pids m) [] = (w, e)"
    by (cases "shutdown_wait waitpid_error (running_pids m) []")
  with assms have res: "m' = m" "waited = w" "r = (case e of None \<Rightarrow> Inr 0 | Some x \<Rightarrow> Inl x)"
    by (auto simp: manager_shutdown_def Let_def split: option.splits)
  note sr = shutdown_wait_result [OF sw]
  show "m' = m" by (rule res(1))
  show "set waited \<subseteq> set (running_pids m)" using sr res(2) by simp
  show "waited = filter (\<lambda>c. waitpid_error c = None) (running_pids m)" if "r = Inr 0"
    using that sr res(2,3) by (cases e) simp_all
qed

lemma manager_on_signal_received_continues:
  assumes "manager_on_signal_received waitpid_error sig p m = Continues p' m'"
    and "reflects p m reaped"
  shows "reflects p' m' reaped"
proof (cases "sig = SIGHUP")
  case True
  with assms(1) have "p' = fst (manager_reload p m)" "m' = snd (manager_reload p m)"
    by (auto simp: manager_on_signal_received_def split: prod.splits)
  with reflects_other_operations(4) [OF assms(2)] show ?thesis by simp
next
  case False
  with assms(1) have "p' = p" "m' = m"
    by (auto simp: manager_on_signal_received_def split: if_splits prod.splits)
  with assms(2) show ?thesis by simp
qed

lemma manager_on_signal_received_terminated:
  assumes "manager_on_signal_received waitpid_error sig p m = Terminated p' m' waited r"
  shows "m' = m" and "set waited \<subseteq> set (running_pids m)"
    and "sig = SIGTERM \<Longrightarrow> r = Inr 0 \<Longrightarrow>
           waited = filter (\<lambda>c. waitpid_error c = None) (running_pids m)"
proof -
  consider (alarm) "sig = SIGALRM" | (shutdown) "sig \<noteq> SIGALRM" "sig = SIGTERM"
    | (other) "sig \<noteq> SIGALRM" "sig \<noteq> SIGTERM"
    by blast
  then have "m' = m \<and> set waited \<subseteq> set (running_pids m) \<and>
      (sig = SIGTERM \<longrightarrow> r = Inr 0 \<longrightarrow>
         waited = filter (\<lambda>c. waitpid_error c = None) (running_pids m))"
  proof cases
    case alarm
    with assms show ?thesis by (simp add: manager_on_signal_received_def)
  next
    case shutdown
    with assms have sd: "manager_shutdown waitpid_error p m = (p', m', waited, r)"
      by (auto simp: manager_on_signal_received_def split: prod.splits)
    from manager_shutdown_result [OF sd] show ?thesis by simp
  next
    case other
    with assms show ?thesis
      by (auto simp: manager_on_signal_received_def split: if_splits prod.splits)
  qed
  then show "m' = m" and "set waited \<subseteq> set (running_pids m)"
    and "sig = SIGTERM \<Longrightarrow> r = Inr 0 \<Longrightarrow>
           waited = filter (\<lambda>c. waitpid_error c = None) (running_pids m)"
    by simp_all
qed

text \<open>
  C9, as stated, fails on the graceful shutdown of the master. On SIGTERM \<^verbatim>\<open>_shutdown\<close>
  waits on every tracked child and removes none of them from \<^verbatim>\<open>_running_services\<close>: with
  workers 101 and 102 tracked, both have been waited on when the method ends with
  status 0, and the table still holds both, so it does not reflect the children that
  are forked and not yet reaped.
\<close>

theorem shutdown_counterexample:
  "reflects
     \<lparr>process_runner_already_created = True, handlers = (\<lambda>s. SIG_DFL), wakeup_fd = Some 4,
      nonblocking = [4, 3], next_fd = 7, fd_limit = 1024, argv = [''app''],
      proctitle = ''app: master process [app]'', group_leader = True, session_leader = True,
      clock = 5, last_pid = 102, forks = [(0, 101), (0, 102)], sent = [], group_sent = []\<rparr>
     \<lparr>wakeup_interval = 1 / 100, signal_pipe_r = 3, signal_pipe_w = 4, signals_received = [],
      services = [(7, \<lparr>service = ''A'', workers = 2, args = None, kwargs = None, service_id = 7\<rparr>)],
      running_services = [(7, [(101, 0), (102, 1)])], forktimes = [], current_process = None,
      readpipe = 5, writepipe = 6\<rparr> []
   \<and> manager_on_signal_received (\<lambda>c. None) SIGTERM
     \<lparr>process_runner_already_created = True, handlers = (\<lambda>s. SIG_DFL), wakeup_fd = Some 4,
      nonblocking = [4, 3], next_fd = 7, fd_limit = 1024, argv = [''app''],
      proctitle = ''app: master process [app]'', group_leader = True, session_leader = True,
      clock = 5, last_pid = 102, forks = [(0, 101), (0, 102)], sent = [], group_sent = []\<rparr>
     \<lparr>wakeup_interval = 1 / 100, signal_pipe_r = 3, signal_pipe_w = 4, signals_received = [],
      services = [(7, \<lparr>service = ''A'', workers = 2, args = None, kwargs = None, service_id = 7\<rparr>)],
      running_services = [(7, [(101, 0), (102, 1)])], forktimes = [], current_process = None,
      readpipe = 5, writepipe = 6\<rparr>
   = Terminated
     \<lparr>process_runner_already_created = True, handlers = (\<lambda>s. SIG_DFL)(SIGTERM := SIG_IGN), wakeup_fd = Some 4,
      nonblocking = [4, 3], next_fd = 7, fd_limit = 1024, argv = [''app''],
      proctitle = ''app: master process [app]'', group_leader = True, session_leader = True,
      clock = 5, last_pid = 102, forks = [(0, 101), (0, 102)], sent = [], group_sent = [SIGTERM]\<rparr>
     \<lparr>wakeup_interval = 1 / 100, signal_pipe_r = 3, signal_pipe_w = 4, signals_received = [],
      services = [(7, \<lparr>service = ''A'', workers = 2, args = None, kwargs = None, service_id = 7\<rparr>)],
      running_services = [(7, [(101, 0), (102, 1)])], forktimes = [], current_process = None,
      readpipe = 5, writepipe = 6\<rparr> [101, 102] (Inr 0)
   \<and> running_pids
     \<lparr>wakeup_interval = 1 / 100, signal_pipe_r = 3, signal_pipe_w = 4, signals_received = [],
      services = [(7, \<lparr>service = ''A'', workers = 2, args = None, kwargs = None, service_id = 7\<rparr>)],
      running_services = [(7, [(101, 0), (102, 1)])], forktimes = [], current_process = None,
      readpipe = 5, writepipe = 6\<rparr> = [101, 102]
   \<and> \<not> reflects
     \<lparr>process_runner_already_created = True, handlers = (\<lambda>s. SIG_DFL)(SIGTERM := SIG_IGN), wakeup_fd = Some 4,
      nonblocking = [4, 3], next_fd = 7, fd_limit = 1024, argv = [''app''],
      proctitle = ''app: master process [app]'', group_leader = True, session_leader = True,
      clock = 5, last_pid = 102, forks = [(0, 101), (0, 102)], sent = [], group_sent = [SIGTERM]\<rparr>
     \<lparr>wakeup_interval = 1 / 100, signal_pipe_r = 3, signal_pipe_w = 4, signals_received = [],
      services = [(7, \<lparr>service = ''A'', workers = 2, args = None, kwargs = None, service_id = 7\<rparr>)],
      running_services = [(7, [(101, 0), (102, 1)])], forktimes = [], current_process = None,
      readpipe = 5, writepipe = 6\<rparr> [101, 102]"
  by (simp add: reflects_def running_pids_def table_pid_list_def manager_on_signal_received_def
      manager_shutdown_def signal_signal_def os_killpg_def)

text \<open>
  C9, amended. \<^verbatim>\<open>_stop_worker\<close> only sends SIGTERM, to the pids stored under the worker
  id, and removes nothing from the table: the supervisor changes in
  \<^verbatim>\<open>_running_services\<close> at most, every lookup in the table gives what it gave before, the
  tracked pids are the same, and the table is identical when the service has an entry,
  as it has at the calls in \<^verbatim>\<open>_adjust_workers\<close>, whose lookup comes first (otherwise the
  \<^verbatim>\<open>defaultdict\<close> stores an empty dictionary for the service). A fork and an adjust step
  never remove a tracked pid; \<^verbatim>\<open>_restart_dead_worker\<close> removes at most the pid it is
  given, and a wake-up at most the pids that \<^verbatim>\<open>os.waitpid\<close> returned in it. So the table
  reflects the forked and not yet reaped children as long as the supervisor loop goes
  on: \<open>reflects\<close> holds after construction and is kept by every wake-up, whatever
  children it reaps, by registration, reconfiguration, the wait, and by every signal
  whose handling returns. The handling of SIGALRM and SIGTERM does not return and
  leaves the table as it is: the graceful shutdown waits on tracked pids only, on each
  of them for which \<^verbatim>\<open>os.waitpid\<close> raises nothing when it ends with status 0, and removes
  no entry.
\<close>

theorem running_services_reflects_children:
  "(stop_worker p m sid wid = (p', m') \<longrightarrow>
      m' = m\<lparr>running_services := running_services m'\<rparr> \<and>
      (\<forall>k. fst (defaultdict_getitem (running_services m') k)
             = fst (defaultdict_getitem (running_services m) k)) \<and>
      (sid \<in> fst ` set (running_services m) \<longrightarrow> m' = m) \<and>
      (sid \<notin> fst ` set (running_services m) \<longrightarrow>
         running_services m' = running_services m @ [(sid, [])]) \<and>
      tracked m' = tracked m \<and>
      p' = p\<lparr>sent := sent p @ map (\<lambda>(cpid, i). (cpid, SIGTERM))
                 (filter (\<lambda>(cpid, i). i = wid)
                    (fst (defaultdict_getitem (running_services m) sid)))\<rparr>) \<and>
   (defaultdict_getitem (running_services m) sid = (inner, d)
      \<and> stop_workers p (m\<lparr>running_services := d\<rparr>) sid wids = (p', m')
      \<longrightarrow> m' = m\<lparr>running_services := d\<rparr>) \<and>
   (start_worker p m sid wid = Inr (p', m') \<longrightarrow> set (tracked m) \<subseteq> set (tracked m')) \<and>
   (adjust_workers p m = Inr (p', m') \<longrightarrow> set (tracked m) \<subseteq> set (tracked m')) \<and>
   (restart_dead_worker p m c = Inr (p', m') \<longrightarrow>
      set (tracked m) \<subseteq> set (tracked m') \<union> UNIV \<times> {c}) \<and>
   (on_wakeup p m dead = Inr (p', m') \<longrightarrow>
      set (tracked m) \<subseteq> set (tracked m') \<union> UNIV \<times> set dead) \<and>
   (reflects p m reaped \<and> handed_out p m dead \<and> on_wakeup p m dead = Inr (p', m')
      \<longrightarrow> reflects p' m' (reaped @ dead)) \<and>
   (reflects p m reaped \<longrightarrow>
      reflects p (snd (reconfigure m sid w)) reaped \<and>
      reflects p (snd (add m u srv w a kw)) reaped \<and>
      reflects (select_wait p dt) m reaped \<and>
      reflects (fst (manager_reload p m)) (snd (manager_reload p m)) reaped) \<and>
   (ServiceManager_init p0 wi = (p, Inr m) \<and> forks p0 = [] \<longrightarrow> reflects p m []) \<and>
   (reflects p m reaped \<and> manager_on_signal_received waitpid_error sig p m = Continues p' m'
      \<longrightarrow> reflects p' m' reaped) \<and>
   (manager_on_signal_received waitpid_error sig p m = Terminated p' m' waited r \<longrightarrow>
      m' = m \<and> set waited \<subseteq> set (running_pids m) \<and>
      (sig = SIGTERM \<and> r = Inr 0 \<longrightarrow>
         waited = filter (\<lambda>c. waitpid_error c = None) (running_pids m)))"
proof -
  have stop: "stop_worker p m sid wid = (p', m') \<longrightarrow>
      m' = m\<lparr>running_services := running_services m'\<rparr> \<and>
      (\<forall>k. fst (defaultdict_getitem (running_services m') k)
             = fst (defaultdict_getitem (running_services m) k)) \<and>
      (sid \<in> fst ` set (running_services m) \<longrightarrow> m' = m) \<and>
      (sid \<notin> fst ` set (running_services m) \<longrightarrow>
         running_services m' = running_services m @ [(sid, [])]) \<and>
      tracked m' = tracked m \<and>
      p' = p\<lparr>sent := sent p @ map (\<lambda>(cpid, i). (cpid, SIGTERM))
                 (filter (\<lambda>(cpid, i). i = wid)
                    (fst (defaultdict_getitem (running_services m) sid)))\<rparr>"
  proof
    assume a: "stop_worker p m sid wid = (p', m')"
    note r = stop_worker_result [OF a]
    show "m' = m\<lparr>running_services := running_services m'\<rparr> \<and>
      (\<forall>k. fst (defaultdict_getitem (running_services m') k)
             = fst (defaultdict_getitem (running_services m) k)) \<and>
      (sid \<in> fst ` set (running_services m) \<longrightarrow> m' = m) \<and>
      (sid \<notin> fst ` set (running_services m) \<longrightarrow>
         running_services m' = running_services m @ [(sid, [])]) \<and>
      tracked m' = tracked m \<and>
      p' = p\<lparr>sent := sent p @ map (\<lambda>(cpid, i). (cpid, SIGTERM))
                 (filter (\<lambda>(cpid, i). i = wid)
                    (fst (defaultdict_getitem (running_services m) sid)))\<rparr>"
      by (intro conjI allI impI)
         (rule r(1), rule r(2), erule r(3), erule r(4), rule r(5), rule r(6))
  qed
  have site: "defaultdict_getitem (running_services m) sid = (inner, d)
      \<and> stop_workers p (m\<lparr>running_services := d\<rparr>) sid wids = (p', m')
      \<longrightarrow> m' = m\<lparr>running_services := d\<rparr>"
    using defaultdict_getitem_has_key [of "running_services m" sid inner d]
      stop_workers_present [of sid "m\<lparr>running_services := d\<rparr>" p wids p' m']
    by simp
  have start: "start_worker p m sid wid = Inr (p', m') \<longrightarrow> set (tracked m) \<subseteq> set (tracked m')"
    using start_worker_keeps by blast
  have adjust: "adjust_workers p m = Inr (p', m') \<longrightarrow> set (tracked m) \<subseteq> set (tracked m')"
    using adjust_workers_items_keeps by (simp add: adjust_workers_def)
  have restart: "restart_dead_worker p m c = Inr (p', m') \<longrightarrow>
      set (tracked m) \<subseteq> set (tracked m') \<union> UNIV \<times> {c}"
    using restart_dead_worker_keeps by blast
  have wake: "on_wakeup p m dead = Inr (p', m') \<longrightarrow>
      set (tracked m) \<subseteq> set (tracked m') \<union> UNIV \<times> set dead"
    using on_wakeup_keeps by blast
  have inv: "reflects p m reaped \<and> handed_out p m dead \<and> on_wakeup p m dead = Inr (p', m')
      \<longrightarrow> reflects p' m' (reaped @ dead)"
    using reflects_on_wakeup by blast
  have other: "reflects p m reaped \<longrightarrow>
      reflects p (snd (reconfigure m sid w)) reaped \<and>
      reflects p (snd (add m u srv w a kw)) reaped \<and>
      reflects (select_wait p dt) m reaped \<and>
      reflects (fst (manager_reload p m)) (snd (manager_reload p m)) reaped"
    using reflects_other_operations by blast
  have init: "ServiceManager_init p0 wi = (p, Inr m) \<and> forks p0 = [] \<longrightarrow> reflects p m []"
    using reflects_init by blast
  have cont: "reflects p m reaped \<and> manager_on_signal_received waitpid_error sig p m = Continues p' m'
      \<longrightarrow> reflects p' m' reaped"
    using manager_on_signal_received_continues by blast
  have terminated: "manager_on_signal_received waitpid_error sig p m = Terminated p' m' waited r \<longrightarrow>
      m' = m \<and> set waited \<subseteq> set (running_pids m) \<and>
      (sig = SIGTERM \<and> r = Inr 0 \<longrightarrow>
         waited = filter (\<lambda>c. waitpid_error c = None) (running_pids m))"
    using manager_on_signal_received_terminated [of waitpid_error sig p m p' m' waited r]
    by blast
  show ?thesis
    by (intro conjI) (rule stop, rule site, rule start, rule adjust, rule restart, rule wake, rule inv, rule other, rule init, rule cont, rule terminated)
qed

text \<open>
  The theorem at a supervisor with one service of two workers, running as pids 101 and
  102: stopping worker 1 sends SIGTERM to 102 and changes nothing else; a wake-up reaps
  101 and then 103, the child forked in the same wake-up to replace 101, and leaves
  102 and the new child 104 in the table, which reflects the children before and after.
\<close>

theorem running_services_reflects_children_witness:
  "stop_worker
     \<lparr>process_runner_already_created = True, handlers = (\<lambda>s. SIG_DFL), wakeup_fd = Some 4,
      nonblocking = [4, 3], next_fd = 7, fd_limit = 1024, argv = [''app''],
      proctitle = ''app: master process [app]'', group_leader = True, session_leader = True,
      clock = 5, last_pid = 102, forks = [(0, 101), (0, 102)], sent = [], group_sent = []\<rparr>
     \<lparr>wakeup_interval = 1 / 100, signal_pipe_r = 3, signal_pipe_w = 4, signals_received = [],
      services = [(7, \<lparr>service = ''A'', workers = 2, args = None, kwargs = None, service_id = 7\<rparr>)],
      running_services = [(7, [(101, 0), (102, 1)])], forktimes = [], current_process = None,
      readpipe = 5, writepipe = 6\<rparr> 7 1
   = (\<lparr>process_runner_already_created = True, handlers = (\<lambda>s. SIG_DFL), wakeup_fd = Some 4,
      nonblocking = [4, 3], next_fd = 7, fd_limit = 1024, argv = [''app''],
      proctitle = ''app: master process [app]'', group_leader = True, session_leader = True,
      clock = 5, last_pid = 102, forks = [(0, 101), (0, 102)], sent = [(102, SIGTERM)], group_sent = []\<rparr>,
      \<lparr>wakeup_interval = 1 / 100, signal_pipe_r = 3, signal_pipe_w = 4, signals_received = [],
      services = [(7, \<lparr>service = ''A'', workers = 2, args = None, kwargs = None, service_id = 7\<rparr>)],
      running_services = [(7, [(101, 0), (102, 1)])], forktimes = [], current_process = None,
      readpipe = 5, writepipe = 6\<rparr>)
   \<and> handed_out
     \<lparr>process_runner_already_created = True, handlers = (\<lambda>s. SIG_DFL), wakeup_fd = Some 4,
      nonblocking = [4, 3], next_fd = 7, fd_limit = 1024, argv = [''app''],
      proctitle = ''app: master process [app]'', group_leader = True, session_leader = True,
      clock = 5, last_pid = 102, forks = [(0, 101), (0, 102)], sent = [], group_sent = []\<rparr>
     \<lparr>wakeup_interval = 1 / 100, signal_pipe_r = 3, signal_pipe_w = 4, signals_received = [],
      services = [(7, \<lparr>service = ''A'', workers = 2, args = None, kwargs = None, service_id = 7\<rparr>)],
      running_services = [(7, [(101, 0), (102, 1)])], forktimes = [], current_process = None,
      readpipe = 5, writepipe = 6\<rparr> [101, 103]
   \<and> on_wakeup
     \<lparr>process_runner_already_created = True, handlers = (\<lambda>s. SIG_DFL), wakeup_fd = Some 4,
      nonblocking = [4, 3], next_fd = 7, fd_limit = 1024, argv = [''app''],
      proctitle = ''app: master process [app]'', group_leader = True, session_leader = True,
      clock = 5, last_pid = 102, forks = [(0, 101), (0, 102)], sent = [], group_sent = []\<rparr>
     \<lparr>wakeup_interval = 1 / 100, signal_pipe_r = 3, signal_pipe_w = 4, signals_received = [],
      services = [(7, \<lparr>service = ''A'', workers = 2, args = None, kwargs = None, service_id = 7\<rparr>)],
      running_services = [(7, [(101, 0), (102, 1)])], forktimes = [], current_process = None,
      readpipe = 5, writepipe = 6\<rparr> [101, 103]
   = Inr (\<lparr>process_runner_already_created = True, handlers = (\<lambda>s. SIG_DFL), wakeup_fd = Some 4,
      nonblocking = [4, 3], next_fd = 7, fd_limit = 1024, argv = [''app''],
      proctitle = ''app: master process [app]'', group_leader = True, session_leader = True,
      clock = 5, last_pid = 104, forks = [(0, 101), (0, 102), (5, 103), (5, 104)], sent = [], group_sent = []\<rparr>,
      \<lparr>wakeup_interval = 1 / 100, signal_pipe_r = 3, signal_pipe_w = 4, signals_received = [],
      services = [(7, \<lparr>service = ''A'', workers = 2, args = None, kwargs = None, service_id = 7\<rparr>)],
      running_services = [(7, [(102, 1), (104, 0)])], forktimes = [], current_process = None,
      readpipe = 5, writepipe = 6\<rparr>)
   \<and> reflects
     \<lparr>process_runner_already_created = True, handlers = (\<lambda>s. SIG_DFL), wakeup_fd = Some 4,
      nonblocking = [4, 3], next_fd = 7, fd_limit = 1024, argv = [''app''],
      proctitle = ''app: master process [app]'', group_leader = True, session_leader = True,
      clock = 5, last_pid = 102, forks = [(0, 101), (0, 102)], sent = [], group_sent = []\<rparr>
     \<lparr>wakeup_interval = 1 / 100, signal_pipe_r = 3, signal_pipe_w = 4, signals_received = [],
      services = [(7, \<lparr>service = ''A'', workers = 2, args = None, kwargs = None, service_id = 7\<rparr>)],
      running_services = [(7, [(101, 0), (102, 1)])], forktimes = [], current_process = None,
      readpipe = 5, writepipe = 6\<rparr> []
   \<and> reflects
     \<lparr>process_runner_already_created = True, handlers = (\<lambda>s. SIG_DFL), wakeup_fd = Some 4,
      nonblocking = [4, 3], next_fd = 7, fd_limit = 1024, argv = [''app''],
      proctitle = ''app: master process [app]'', group_leader = True, session_leader = True,
      clock = 5, last_pid = 104, forks = [(0, 101), (0, 102), (5, 103), (5, 104)], sent = [], group_sent = []\<rparr>
     \<lparr>wakeup_interval = 1 / 100, signal_pipe_r = 3, signal_pipe_w = 4, signals_received = [],
      services = [(7, \<lparr>service = ''A'', workers = 2, args = None, kwargs = None, service_id = 7\<rparr>)],
      running_services = [(7, [(102, 1), (104, 0)])], forktimes = [], current_process = None,
      readpipe = 5, writepipe = 6\<rparr> [101, 103]"
proof -
  let ?p = "\<lparr>process_runner_already_created = True, handlers = (\<lambda>s. SIG_DFL), wakeup_fd = Some 4,
      nonblocking = [4, 3], next_fd = 7, fd_limit = 1024, argv = [''app''],
      proctitle = ''app: master process [app]'', group_leader = True, session_leader = True,
      clock = 5, last_pid = 102, forks = [(0, 101), (0, 102)], sent = [], group_sent = []\<rparr>"
  let ?pstop = "\<lparr>process_runner_already_created = True, handlers = (\<lambda>s. SIG_DFL), wakeup_fd = Some 4,
      nonblocking = [4, 3], next_fd = 7, fd_limit = 1024, argv = [''app''],
      proctitle = ''app: master process [app]'', group_leader = True, session_leader = True,
      clock = 5, last_pid = 102, forks = [(0, 101), (0, 102)], sent = [(102, SIGTERM)], group_sent = []\<rparr>"
  let ?p2 = "\<lparr>process_runner_already_created = True, handlers = (\<lambda>s. SIG_DFL), wakeup_fd = Some 4,
      nonblocking = [4, 3], next_fd = 7, fd_limit = 1024, argv = [''app''],
      proctitle = ''app: master process [app]'', group_leader = True, session_leader = True,
      clock = 5, last_pid = 104, forks = [(0, 101), (0, 102), (5, 103), (5, 104)], sent = [], group_sent = []\<rparr>"
  let ?m = "\<lparr>wakeup_interval = 1 / 100, signal_pipe_r = 3, signal_pipe_w = 4, signals_received = [],
      services = [(7, \<lparr>service = ''A'', workers = 2, args = None, kwargs = None, service_id = 7\<rparr>)],
      running_services = [(7, [(101, 0), (102, 1)])], forktimes = [], current_process = None,
      readpipe = 5, writepipe = 6\<rparr>"
  let ?m2 = "\<lparr>wakeup_interval = 1 / 100, signal_pipe_r = 3, signal_pipe_w = 4, signals_received = [],
      services = [(7, \<lparr>service = ''A'', workers = 2, args = None, kwargs = None, service_id = 7\<rparr>)],
      running_services = [(7, [(102, 1), (104, 0)])], forktimes = [], current_process = None,
      readpipe = 5, writepipe = 6\<rparr>"
  have stop: "stop_worker ?p ?m 7 1 = (?pstop, ?m)"
    by (simp add: supervisor_defs)
  have handed: "handed_out ?p ?m [101, 103]"
    by (simp add: supervisor_defs)
  have wake: "on_wakeup ?p ?m [101, 103] = Inr (?p2, ?m2)"
    by (simp add: supervisor_defs)
  have before: "reflects ?p ?m []"
    by (simp add: reflects_def running_pids_def table_pid_list_def)
  have after: "reflects ?p2 ?m2 ([] @ [101, 103])"
    using running_services_reflects_children
      [where p = ?p and m = ?m and dead = "[101, 103]" and reaped = "[]"
         and p' = ?p2 and m' = ?m2]
      before handed wake
    by simp
  from stop handed wake before after show ?thesis by simp
qed

end
